theory Spec2Isabelle
  imports Complex_Main
begin

section \<open>JavaScript values\<close>

text \<open>
  The pair-data context of \<^verbatim>\<open>src/contexts/PairData.jsx\<close> keeps one plain JavaScript object
  as its state. Pair addresses, the mining-campaign status keys and the key
  \<^verbatim>\<open>topPairs\<close> all live in that one namespace, so the state is modelled as one map from
  property keys to values, and the values as an untyped datatype.

  An object is the map of its own enumerable properties. Inherited properties
  (\<^verbatim>\<open>Object.prototype\<close>) are not modelled: they are functions without own enumerable
  properties, so spreading one of them contributes nothing.
  \<^verbatim>\<open>JNaN\<close> is the number NaN; a string is a list of characters.
\<close>

datatype jsval =
    JUndefined
  | JNull
  | JBool bool
  | JNaN
  | JNum real
  | JStr string
  | JArr "jsval list"
  | JObj "string \<Rightarrow> jsval option"

type_synonym jsobj = "string \<Rightarrow> jsval option"

text \<open>The truthiness test of \<^verbatim>\<open>x ? a : b\<close>, \<^verbatim>\<open>x && y\<close> and \<^verbatim>\<open>x || y\<close>.\<close>

fun truthy :: "jsval \<Rightarrow> bool" where
  "truthy JUndefined = False"
| "truthy JNull = False"
| "truthy (JBool b) = b"
| "truthy JNaN = False"
| "truthy (JNum x) = (x \<noteq> 0)"
| "truthy (JStr s) = (s \<noteq> [])"
| "truthy (JArr xs) = True"
| "truthy (JObj m) = True"

text \<open>The property key of an array index: its decimal numeral.\<close>

fun decimal :: "nat \<Rightarrow> string" where
  "decimal n =
     (if n < 10 then [char_of (48 + n)]
      else decimal (n div 10) @ [char_of (48 + n mod 10)])"

declare decimal.simps [simp del]

text \<open>
  What an object spread \<^verbatim>\<open>{...v}\<close> copies: the own enumerable properties of \<^verbatim>\<open>v\<close>.
  An array and a string contribute their indexed elements; \<^verbatim>\<open>undefined\<close>,
  \<^verbatim>\<open>null\<close>, booleans and numbers contribute nothing.
\<close>

fun ownProps :: "jsval \<Rightarrow> jsobj" where
  "ownProps (JObj m) = m"
| "ownProps (JArr xs) = map_of (zip (map decimal [0..<length xs]) xs)"
| "ownProps (JStr s) = map_of (zip (map decimal [0..<length s]) (map (\<lambda>c. JStr [c]) s))"
| "ownProps JUndefined = Map.empty"
| "ownProps JNull = Map.empty"
| "ownProps (JBool b) = Map.empty"
| "ownProps JNaN = Map.empty"
| "ownProps (JNum x) = Map.empty"

text \<open>
  The guarded property read \<^verbatim>\<open>v?.[k]\<close>: \<^verbatim>\<open>undefined\<close> on \<^verbatim>\<open>undefined\<close> and
  \<^verbatim>\<open>null\<close>, the own property otherwise (and \<^verbatim>\<open>length\<close> of arrays and strings).
\<close>

definition lookupOr :: "jsobj \<Rightarrow> string \<Rightarrow> jsval" where
  "lookupOr m k = (case m k of None \<Rightarrow> JUndefined | Some v \<Rightarrow> v)"

fun getProp :: "jsval \<Rightarrow> string \<Rightarrow> jsval" where
  "getProp (JObj m) k = lookupOr m k"
| "getProp (JArr xs) k =
     (if k = ''length'' then JNum (real (length xs)) else lookupOr (ownProps (JArr xs)) k)"
| "getProp (JStr s) k =
     (if k = ''length'' then JNum (real (length s)) else lookupOr (ownProps (JStr s)) k)"
| "getProp JUndefined k = JUndefined"
| "getProp JNull k = JUndefined"
| "getProp (JBool b) k = JUndefined"
| "getProp JNaN k = JUndefined"
| "getProp (JNum x) k = JUndefined"

text \<open>
  \<^verbatim>\<open>
  export function safeAccess(object, path) {
    return object
      ? path.reduce(
          (accumulator, currentValue) =>
            (accumulator && accumulator[currentValue] ? accumulator[currentValue] : null),
          object,
        )
      : null;
  }
  \<close>
\<close>

definition safeAccess :: "jsval \<Rightarrow> string list \<Rightarrow> jsval" where
  "safeAccess object path =
     (if truthy object
      then foldl (\<lambda>accumulator currentValue.
                    if truthy accumulator \<and> truthy (getProp accumulator currentValue)
                    then getProp accumulator currentValue else JNull)
                 object path
      else JNull)"

text \<open>\<^verbatim>\<open>v || {}\<close>\<close>

definition orEmptyObject :: "jsval \<Rightarrow> jsval" where
  "orEmptyObject v = (if truthy v then v else JObj Map.empty)"

section \<open>The cache store: the reducer\<close>

text \<open>
  One constructor per action type of the reducer, with the payload fields the case
  destructures; \<^verbatim>\<open>UnknownAction\<close> is any other type string. Keys are the strings the
  computed property names convert to; the interval of \<^verbatim>\<open>UPDATE_HOURLY_DATA\<close> is a
  number of seconds and becomes its decimal numeral. The pairs of \<^verbatim>\<open>UPDATE_TOP_PAIRS\<close>
  come with the key that \<^verbatim>\<open>pair.id\<close> converts to; \<^verbatim>\<open>None\<close> is a falsy \<^verbatim>\<open>topPairs\<close>.
\<close>

datatype action =
    UPDATE string jsval
  | UPDATE_MINING_DATA string jsval
  | UPDATE_TOP_PAIRS "(string \<times> jsval) list option" string
  | UPDATE_PAIR_TXNS string jsval
  | UPDATE_CHART_DATA string jsval
  | UPDATE_HOURLY_DATA string jsval string nat
  | RESET
  | UnknownAction string

datatype error = Error string | TypeError | QueryError

text \<open>\<^verbatim>\<open>const INITIAL_STATE = { topPairs: {} };\<close>\<close>

definition INITIAL_STATE :: jsobj where
  "INITIAL_STATE = [''topPairs'' \<mapsto> JObj Map.empty]"

text \<open>
  \<^verbatim>\<open>topPairs.reduce((reducedPairs, pair) => { reducedPairs[pair.id] = pair; return reducedPairs; }, {})\<close>
\<close>

definition reducePairs :: "(string \<times> jsval) list \<Rightarrow> jsobj" where
  "reducePairs topPairs = foldl (\<lambda>reducedPairs (pid, pair). reducedPairs(pid \<mapsto> pair)) Map.empty topPairs"

fun reducer :: "jsobj \<Rightarrow> action \<Rightarrow> error + jsobj" where
  "reducer state (UPDATE pairAddress data) =
     Inr (state(pairAddress \<mapsto>
            JObj (ownProps (getProp (JObj state) pairAddress) ++ ownProps data)))"
| "reducer state (UPDATE_MINING_DATA status liquidityMiningData) =
     Inr (state(status \<mapsto> liquidityMiningData))"
| "reducer state (UPDATE_TOP_PAIRS topPairs network) =
     (let newTopPairs = (case topPairs of Some ps \<Rightarrow> reducePairs ps | None \<Rightarrow> Map.empty)
      in Inr (state(''topPairs'' \<mapsto>
                JObj ((ownProps (getProp (JObj state) ''topPairs''))(network \<mapsto> JObj newTopPairs)))))"
| "reducer state (UPDATE_PAIR_TXNS address transactions) =
     Inr (state(address \<mapsto>
            JObj ((ownProps (orEmptyObject (safeAccess (JObj state) [address])))
                    (''txns'' \<mapsto> transactions))))"
| "reducer state (UPDATE_CHART_DATA address chartData) =
     Inr (state(address \<mapsto>
            JObj ((ownProps (orEmptyObject (safeAccess (JObj state) [address])))
                    (''chartData'' \<mapsto> chartData))))"
| "reducer state (UPDATE_HOURLY_DATA address data timeWindow interval) =
     Inr (state(address \<mapsto>
            JObj ((ownProps (getProp (JObj state) address))
                    (timeWindow \<mapsto>
                       JObj ((ownProps (getProp (getProp (JObj state) address) timeWindow))
                               (decimal interval \<mapsto> data))))))"
| "reducer state RESET = Inr [''topPairs'' \<mapsto> getProp (JObj state) ''topPairs'']"
| "reducer state (UnknownAction type) =
     Inl (Error (''Unexpected action type in DataContext reducer: '' @ [CHR 0x27] @ type @ [CHR 0x27] @ ''.''))"

section \<open>Daily chart data\<close>

text \<open>
  A point of the daily series. \<^verbatim>\<open>date\<close> is a Unix time in seconds. The volume and the
  reserve are the numbers \<^verbatim>\<open>parseFloat\<close> reads from the decimal strings of the subgraph
  (\<^verbatim>\<open>dayReserveUSD\<close> is the field \<^verbatim>\<open>reserveUSD\<close> of the point). \<^verbatim>\<open>utilization\<close> is \<^verbatim>\<open>None\<close>
  on a point as fetched, and \<^verbatim>\<open>dayString\<close> is set on the points the gap fill adds.
\<close>

record dayData =
  date :: nat
  dayString :: "nat option"
  dailyVolumeUSD :: real
  dayReserveUSD :: real
  utilization :: "real option"

text \<open>\<^verbatim>\<open>const oneDay = 24 * 60 * 60;\<close>\<close>

definition oneDay :: nat where
  "oneDay = 24 * 60 * 60"

text \<open>
  \<^verbatim>\<open>(date / oneDay).toFixed(0)\<close>: the quotient rounded to the nearest integer, a half
  rounded up. The set of day indices holds these numerals as strings; two of them are
  the same string exactly when they are the same number.
\<close>

definition dayIndex :: "nat \<Rightarrow> nat" where
  "dayIndex d = (d + oneDay div 2) div oneDay"

text \<open>
  \<^verbatim>\<open>
  while (!allFound) {
    let result = await client.query({ query: PAIR_CHART, variables: { pairAddress: pairAddress, skip } });
    skip += 1000;
    data = data.concat(result.data.pairDayDatas);
    if (result.data.pairDayDatas.length < 1000) { allFound = true; }
  }
  \<close>
  \<open>query\<close> answers the page that starts at \<open>skip\<close>. A query that throws ends the loop
  with the data fetched so far (\<^verbatim>\<open>Inl\<close>); a client that keeps answering full pages keeps
  the loop running, which is the value \<^verbatim>\<open>None\<close>.
\<close>

partial_function (option) fetchPages ::
  "(nat \<Rightarrow> error + dayData list) \<Rightarrow> nat \<Rightarrow> dayData list \<Rightarrow> (dayData list + dayData list) option" where
  "fetchPages query skip data =
     (case query skip of
        Inl e \<Rightarrow> Some (Inl data)
      | Inr pairDayDatas \<Rightarrow>
          if length pairDayDatas < 1000 then Some (Inr (data @ pairDayDatas))
          else fetchPages query (skip + 1000) (data @ pairDayDatas))"

declare fetchPages.simps [code]

text \<open>
  The body of \<^verbatim>\<open>data.forEach\<close> on one point:
  \<^verbatim>\<open>
  dayData.dailyVolumeUSD = parseFloat(dayData.dailyVolumeUSD);
  dayData.reserveUSD = parseFloat(dayData.reserveUSD);
  dayData.utilization =
    parseFloat(dayData.reserveUSD === 0 ? 0 : dayData.dailyVolumeUSD / dayData.reserveUSD) * 100;
  \<close>
\<close>

definition parseDayData :: "dayData \<Rightarrow> dayData" where
  "parseDayData dayData =
     dayData\<lparr>utilization :=
       Some ((if dayReserveUSD dayData = 0 then 0
              else dailyVolumeUSD dayData / dayReserveUSD dayData) * 100)\<rparr>"

text \<open>
  \<^verbatim>\<open>
  while (timestamp < utcEndTime.unix() - oneDay) {
    const nextDay = timestamp + oneDay;
    let currentDayIndex = (nextDay / oneDay).toFixed(0);
    if (!dayIndexSet.has(currentDayIndex)) {
      data.push({ date: nextDay, dayString: nextDay, dailyVolumeUSD: 0,
                  reserveUSD: latestLiquidityUSD, utilization: 0 });
    } else {
      latestLiquidityUSD = dayIndexArray[index].reserveUSD;
      index = index + 1;
    }
    timestamp = nextDay;
  }
  \<close>
  Reading \<^verbatim>\<open>dayIndexArray[index].reserveUSD\<close> beyond the end of the array throws; the
  result is then \<^verbatim>\<open>Inl\<close> of the array as it is at that moment.
\<close>

function fillEmptyDays ::
  "nat \<Rightarrow> nat list \<Rightarrow> dayData list \<Rightarrow> nat \<Rightarrow> real \<Rightarrow> nat \<Rightarrow> dayData list \<Rightarrow>
   dayData list + dayData list" where
  "fillEmptyDays utcEndTime dayIndexSet dayIndexArray timestamp latestLiquidityUSD index data =
     (if int timestamp < int utcEndTime - int oneDay
      then (let nextDay = timestamp + oneDay;
                currentDayIndex = dayIndex nextDay
            in if currentDayIndex \<notin> set dayIndexSet
               then fillEmptyDays utcEndTime dayIndexSet dayIndexArray nextDay latestLiquidityUSD index
                      (data @ [\<lparr>date = nextDay, dayString = Some nextDay, dailyVolumeUSD = 0,
                                dayReserveUSD = latestLiquidityUSD, utilization = Some 0\<rparr>])
               else if index < length dayIndexArray
               then fillEmptyDays utcEndTime dayIndexSet dayIndexArray nextDay
                      (dayReserveUSD (dayIndexArray ! index)) (index + 1) data
               else Inl data)
      else Inr data)"
  by pat_completeness auto
termination
  by (relation "measure (\<lambda>(utcEndTime, dayIndexSet, dayIndexArray, timestamp, latestLiquidityUSD, index, data).
                           utcEndTime - timestamp)")
     (auto simp: oneDay_def)

declare fillEmptyDays.simps [simp del]

text \<open>
  \<^verbatim>\<open>getPairChartData(client, pairAddress)\<close>. \<open>utcEndTime\<close> is \<^verbatim>\<open>dayjs.utc().unix()\<close> and
  \<open>startTime\<close> the time one year earlier that the function computes from it.

  \<^verbatim>\<open>data.sort((a, b) => (parseInt(a.date) > parseInt(b.date) ? 1 : -1))\<close> orders the points
  by date. For two points of the same date the comparator answers -1 both ways, and
  their order is then up to the engine; the model keeps them in the order they have.

  An exception anywhere is caught, and \<^verbatim>\<open>data\<close> is returned as it is at that moment.
\<close>

definition getPairChartData ::
  "(nat \<Rightarrow> error + dayData list) \<Rightarrow> nat \<Rightarrow> nat \<Rightarrow> dayData list option" where
  "getPairChartData query utcEndTime startTime =
     (case fetchPages query 0 [] of
        None \<Rightarrow> None
      | Some (Inl fetched) \<Rightarrow> Some fetched
      | Some (Inr fetched) \<Rightarrow>
          (let data = map parseDayData fetched;
               dayIndexSet = map (\<lambda>dayData. dayIndex (date dayData)) fetched;
               dayIndexArray = data
           in case data of
                [] \<Rightarrow> Some (sort_key date data)
              | first # rest \<Rightarrow>
                  (case fillEmptyDays utcEndTime dayIndexSet dayIndexArray
                          (if date first \<noteq> 0 then date first else startTime)
                          (dayReserveUSD first) 1 data of
                     Inl filled \<Rightarrow> Some filled
                   | Inr filled \<Rightarrow> Some (sort_key date filled))))"

text \<open>
  The days of a series follow each other: each point is on the day after the point
  before it. Such a series is ascending, has no two points on one day and no gap.
\<close>

fun consecutiveDays :: "nat list \<Rightarrow> bool" where
  "consecutiveDays (a # b # ds) = (dayIndex b = dayIndex a + 1 \<and> consecutiveDays (b # ds))"
| "consecutiveDays ds = True"

text \<open>
  A point that the gap fill adds, for a day without a fetched point: it carries its
  date as \<^verbatim>\<open>dayString\<close>, has no volume and no utilization, and its reserve is that of
  the latest fetched point of an earlier day.
\<close>

definition synthesized :: "dayData list \<Rightarrow> dayData \<Rightarrow> bool" where
  "synthesized fetched p =
     (dayString p = Some (date p) \<and> dailyVolumeUSD p = 0 \<and> utilization p = Some 0
      \<and> dayIndex (date p) \<notin> (\<lambda>q. dayIndex (date q)) ` set fetched
      \<and> (\<exists>q \<in> set fetched. dayIndex (date q) < dayIndex (date p)
            \<and> dayReserveUSD p = dayReserveUSD q
            \<and> (\<forall>q' \<in> set fetched. dayIndex (date q') < dayIndex (date p)
                   \<longrightarrow> dayIndex (date q') \<le> dayIndex (date q))))"

section \<open>Hourly rate candles\<close>

text \<open>
  A number as \<^verbatim>\<open>parseFloat\<close> returns it: \<^verbatim>\<open>NaN\<close> where there is nothing to read.
  Applied to a number again, \<^verbatim>\<open>parseFloat\<close> returns that number.
\<close>

datatype jsnum = NaN | Num real

definition parseFloatNum :: "jsnum \<Rightarrow> jsnum" where
  "parseFloatNum x = x"

text \<open>
  A resolved block \<^verbatim>\<open>{ timestamp, number }\<close>; \<^verbatim>\<open>number\<close> is the block number that
  \<^verbatim>\<open>parseFloat(b.number)\<close> reads.
\<close>

record block =
  blockTimestamp :: string
  number :: nat

text \<open>
  A row of the rate query, with the numbers \<^verbatim>\<open>parseFloat\<close> reads from its two prices.
  The query result is the list of its rows (key and value, \<^verbatim>\<open>None\<close> for \<^verbatim>\<open>null\<close>) in
  the order \<^verbatim>\<open>for (var row in result)\<close> visits them.
\<close>

record rateRow =
  token0Price :: jsnum
  token1Price :: jsnum

record rateValue =
  timestamp :: string
  rate0 :: jsnum
  rate1 :: jsnum

record candle =
  candleTimestamp :: string
  candleOpen :: jsnum
  candleClose :: jsnum

datatype rateData = NoData | RateData "candle list" "candle list"

text \<open>
  \<^verbatim>\<open>
  const timestamps = [];
  while (time <= utcEndTime.unix()) {
    timestamps.push(time);
    time += interval;
  }
  \<close>
  With an interval that is not positive the loop never leaves a time at or before the
  end: that run does not return, which is the value \<^verbatim>\<open>None\<close>.
\<close>

function hourStartTimes :: "int \<Rightarrow> int \<Rightarrow> int \<Rightarrow> int list \<Rightarrow> int list option" where
  "hourStartTimes endTime interval time timestamps =
     (if time \<le> endTime
      then (if interval \<le> 0 then None
            else hourStartTimes endTime interval (time + interval) (timestamps @ [time]))
      else Some timestamps)"
  by pat_completeness auto
termination
  by (relation "measure (\<lambda>(endTime, interval, time, timestamps). nat (endTime + 1 - time))") auto

declare hourStartTimes.simps [simp del]

text \<open>\<^verbatim>\<open>s.split(c)\<close> for a one-character separator.\<close>

fun splitOn :: "char \<Rightarrow> string \<Rightarrow> string list" where
  "splitOn c [] = [[]]"
| "splitOn c (x # xs) =
     (if x = c then [] # splitOn c xs
      else (case splitOn c xs of p # ps \<Rightarrow> (x # p) # ps | [] \<Rightarrow> [[x]]))"

text \<open>
  \<^verbatim>\<open>let timestamp = row.split('t')[1]; if (timestamp) { ... }\<close>:
  the second piece of the key, when there is one and it is not empty.
\<close>

definition rowTimestamp :: "string \<Rightarrow> string option" where
  "rowTimestamp row =
     (case splitOn CHR ''t'' row of
        p # ts # ps \<Rightarrow> (if ts = [] then None else Some ts)
      | _ \<Rightarrow> None)"

definition rowRate :: "(rateRow \<Rightarrow> jsnum) \<Rightarrow> rateRow option \<Rightarrow> jsnum" where
  "rowRate price r = (case r of None \<Rightarrow> NaN | Some v \<Rightarrow> price v)"

fun formatRates :: "(string \<times> rateRow option) list \<Rightarrow> rateValue list" where
  "formatRates [] = []"
| "formatRates ((row, r) # result) =
     (case rowTimestamp row of
        Some ts \<Rightarrow>
          \<lparr>timestamp = ts, rate0 = rowRate token0Price r, rate1 = rowRate token1Price r\<rparr>
            # formatRates result
      | None \<Rightarrow> formatRates result)"

text \<open>
  \<^verbatim>\<open>
  for (let i = 0; i < values.length - 1; i++) {
    formattedHistoryRate0.push({
      timestamp: values[i].timestamp,
      open: parseFloat(values[i].rate0),
      close: parseFloat(values[i + 1].rate0),
    });
    ...
  \<close>
  One function for both series, by the rate it reads.
\<close>

definition formattedHistoryRate :: "(rateValue \<Rightarrow> jsnum) \<Rightarrow> rateValue list \<Rightarrow> candle list" where
  "formattedHistoryRate rate values =
     map (\<lambda>i. \<lparr>candleTimestamp = timestamp (values ! i),
                candleOpen = parseFloatNum (rate (values ! i)),
                candleClose = parseFloatNum (rate (values ! (i + 1)))\<rparr>)
         [0..<length values - 1]"

text \<open>
  \<^verbatim>\<open>if (latestBlock) { blocks = blocks.filter((b) => parseFloat(b.number) <= parseFloat(latestBlock)); }\<close>
  \<^verbatim>\<open>None\<close> is a falsy \<^verbatim>\<open>latestBlock\<close> (not supplied, or the number 0);
  \<^verbatim>\<open>Some lb\<close> a truthy one that reads as \<open>lb\<close>.
\<close>

definition filterBlocks :: "nat option \<Rightarrow> block list \<Rightarrow> block list" where
  "filterBlocks latestBlock blocks =
     (case latestBlock of
        None \<Rightarrow> blocks
      | Some lb \<Rightarrow> filter (\<lambda>b. number b \<le> lb) blocks)"

text \<open>
  \<^verbatim>\<open>getPairRateData(client, blockClient, pairAddress, startTime, interval = 3600, latestBlock)\<close>.
  The two helpers of \<^verbatim>\<open>../utils\<close> are parameters: \<open>getBlocksForTimestamps\<close> answers the
  list of timestamps (an exception is \<^verbatim>\<open>Inl\<close>, a falsy answer \<^verbatim>\<open>None\<close>), \<open>splitQuery\<close>
  answers the list of blocks it is asked about. \<open>utcEndTime\<close> is \<^verbatim>\<open>dayjs.utc().unix()\<close>.
  The result is \<^verbatim>\<open>NoData\<close> for \<^verbatim>\<open>[]\<close> and \<^verbatim>\<open>RateData r0 r1\<close> for \<^verbatim>\<open>[r0, r1]\<close>; the
  \<^verbatim>\<open>catch\<close> returns \<^verbatim>\<open>[[], []]\<close>.
\<close>

definition getPairRateData ::
  "(int list \<Rightarrow> error + block list option) \<Rightarrow>
   (block list \<Rightarrow> error + (string \<times> rateRow option) list) \<Rightarrow>
   int \<Rightarrow> int \<Rightarrow> int \<Rightarrow> nat option \<Rightarrow> rateData option" where
  "getPairRateData getBlocksForTimestamps splitQuery utcEndTime startTime interval latestBlock =
     (case hourStartTimes utcEndTime interval startTime [] of
        None \<Rightarrow> None
      | Some timestamps \<Rightarrow>
          Some (if timestamps = [] then NoData
                else (case getBlocksForTimestamps timestamps of
                        Inl e \<Rightarrow> RateData [] []
                      | Inr None \<Rightarrow> NoData
                      | Inr (Some blocks) \<Rightarrow>
                          if blocks = [] then NoData
                          else (case splitQuery (filterBlocks latestBlock blocks) of
                                  Inl e \<Rightarrow> RateData [] []
                                | Inr result \<Rightarrow>
                                    (let values = formatRates result
                                     in RateData (formattedHistoryRate rate0 values)
                                                 (formattedHistoryRate rate1 values))))))"

text \<open>
  \<^verbatim>\<open>getHourlyRateData(client, blockClient, pairAddress, startTime, latestBlock)\<close>: the hour
  start times run while \<^verbatim>\<open>time <= utcEndTime.unix() - 3600\<close> in steps of 3600, and the
  blocks come from \<^verbatim>\<open>getBlocksFromTimestamps(blockClient, timestamps, 100)\<close>.
\<close>

definition getHourlyRateData ::
  "(int list \<Rightarrow> error + block list option) \<Rightarrow>
   (block list \<Rightarrow> error + (string \<times> rateRow option) list) \<Rightarrow>
   int \<Rightarrow> int \<Rightarrow> nat option \<Rightarrow> rateData option" where
  "getHourlyRateData getBlocksFromTimestamps splitQuery utcEndTime startTime latestBlock =
     (case hourStartTimes (utcEndTime - 3600) 3600 startTime [] of
        None \<Rightarrow> None
      | Some timestamps \<Rightarrow>
          Some (if timestamps = [] then NoData
                else (case getBlocksFromTimestamps timestamps of
                        Inl e \<Rightarrow> RateData [] []
                      | Inr None \<Rightarrow> NoData
                      | Inr (Some blocks) \<Rightarrow>
                          if blocks = [] then NoData
                          else (case splitQuery (filterBlocks latestBlock blocks) of
                                  Inl e \<Rightarrow> RateData [] []
                                | Inr result \<Rightarrow>
                                    (let values = formatRates result
                                     in RateData (formattedHistoryRate rate0 values)
                                                 (formattedHistoryRate rate1 values))))))"

section \<open>Metric derivation and the bulk pair fetch\<close>

text \<open>
  A pair as the subgraph returns it, current or at a past block; \<^verbatim>\<open>pair_id\<close> is its
  field \<^verbatim>\<open>id\<close>. The decimal strings of the subgraph are the numbers they read as, and
  block numbers are naturals, compared as numbers. The token names, which
  \<^verbatim>\<open>updateNameData\<close> may rewrite, are not part of the record.
\<close>

record pair =
  pair_id :: string
  volumeUSD :: real
  untrackedVolumeUSD :: real
  reserveUSD :: real
  trackedReserveNativeCurrency :: real
  createdAtBlockNumber :: nat

text \<open>
  The same object after \<^verbatim>\<open>parseData\<close> has set the derived fields. \<^verbatim>\<open>swapFee\<close> is
  \<^verbatim>\<open>None\<close> until \<^verbatim>\<open>getBulkPairData\<close> sets it.
\<close>

record pairData = pair +
  oneDayVolumeUSD :: real
  oneWeekVolumeUSD :: real
  volumeChangeUSD :: real
  oneDayVolumeUntracked :: real
  volumeChangeUntracked :: real
  trackedReserveUSD :: real
  liquidityChangeUSD :: real
  swapFee :: "nat option"

text \<open>
  Modelled from the spec: \<^verbatim>\<open>get2DayPercentChange\<close> of \<^verbatim>\<open>../utils\<close>, which is not among the
  sources. ``Given a current cumulative value and two older cumulative values (t-1d,
  t-2d), the one-day delta is current - t1d and the percent change is computed against
  the previous one-day delta (t1d - t2d), guarding division by zero by returning 0\%
  when the denominator is 0.''
\<close>

definition get2DayPercentChange :: "real \<Rightarrow> real \<Rightarrow> real \<Rightarrow> real \<times> real" where
  "get2DayPercentChange valueNow value24HoursAgo value48HoursAgo =
     (let currentChange = valueNow - value24HoursAgo;
          previousChange = value24HoursAgo - value48HoursAgo
      in (currentChange,
          if previousChange = 0 then 0
          else (currentChange - previousChange) / previousChange * 100))"

text \<open>
  Modelled from the spec: \<^verbatim>\<open>getPercentChange\<close> of \<^verbatim>\<open>../utils\<close>, which is not among the
  sources. ``Simple percent change between current reserve and the 1-day-ago reserve;
  0\% if the 1-day-ago value is absent.'' A 1-day-ago value of 0, on which the spec is
  silent, gives 0\% as well.
\<close>

definition getPercentChange :: "real \<Rightarrow> real option \<Rightarrow> real" where
  "getPercentChange valueNow value24HoursAgo =
     (case value24HoursAgo of
        None \<Rightarrow> 0
      | Some before \<Rightarrow> if before = 0 then 0 else (valueNow - before) / before * 100)"

text \<open>
  \<^verbatim>\<open>parseData(data, oneDayData, twoDayData, oneWeekData, nativeCurrencyPrice, oneDayBlock)\<close>.
  A missing snapshot (\<^verbatim>\<open>undefined\<close>) is \<^verbatim>\<open>None\<close>. The three \<^verbatim>\<open>if\<close> statements at the end
  run in the order of the source.
\<close>

definition parseData ::
  "pair \<Rightarrow> pair option \<Rightarrow> pair option \<Rightarrow> pair option \<Rightarrow> real \<Rightarrow> nat \<Rightarrow> pairData" where
  "parseData data oneDayData twoDayData oneWeekData nativeCurrencyPrice oneDayBlock =
     (let (oneDayVolumeUSD', volumeChangeUSD') =
            get2DayPercentChange (volumeUSD data)
              (case oneDayData of Some d \<Rightarrow> volumeUSD d | None \<Rightarrow> 0)
              (case twoDayData of Some d \<Rightarrow> volumeUSD d | None \<Rightarrow> 0);
          (oneDayVolumeUntracked', volumeChangeUntracked') =
            get2DayPercentChange (untrackedVolumeUSD data)
              (case oneDayData of Some d \<Rightarrow> untrackedVolumeUSD d | None \<Rightarrow> 0)
              (case twoDayData of Some d \<Rightarrow> untrackedVolumeUSD d | None \<Rightarrow> 0);
          oneWeekVolumeUSD' =
            (case oneWeekData of Some w \<Rightarrow> volumeUSD data - volumeUSD w | None \<Rightarrow> volumeUSD data);
          data1 = \<lparr>pair_id = pair_id data, volumeUSD = volumeUSD data,
                   untrackedVolumeUSD = untrackedVolumeUSD data, reserveUSD = reserveUSD data,
                   trackedReserveNativeCurrency = trackedReserveNativeCurrency data,
                   createdAtBlockNumber = createdAtBlockNumber data,
                   oneDayVolumeUSD = oneDayVolumeUSD',
                   oneWeekVolumeUSD = oneWeekVolumeUSD',
                   volumeChangeUSD = volumeChangeUSD',
                   oneDayVolumeUntracked = oneDayVolumeUntracked',
                   volumeChangeUntracked = volumeChangeUntracked',
                   trackedReserveUSD = trackedReserveNativeCurrency data * nativeCurrencyPrice,
                   liquidityChangeUSD =
                     getPercentChange (reserveUSD data) (map_option reserveUSD oneDayData),
                   swapFee = None\<rparr>;
          data2 = (if oneDayData = None \<and> createdAtBlockNumber data > oneDayBlock
                   then data1\<lparr>oneDayVolumeUSD := volumeUSD data\<rparr> else data1);
          data3 = (if oneDayData = None
                   then data2\<lparr>oneDayVolumeUSD := volumeUSD data\<rparr> else data2);
          data4 = (if oneWeekData = None
                   then data3\<lparr>oneWeekVolumeUSD := volumeUSD data\<rparr> else data3)
      in data4)"

text \<open>
  The read-only multicall contract of the selected network: \<^verbatim>\<open>aggregate\<close> answers the
  list of pair ids with \<^verbatim>\<open>result.returnData\<close>, \<^verbatim>\<open>decodeFunctionResult\<close> reads the
  \<^verbatim>\<open>uint32\<close> of \<^verbatim>\<open>swapFee()\<close> from one return blob. Either may throw (\<^verbatim>\<open>Inl\<close>).
\<close>

record multicall =
  aggregate :: "string list \<Rightarrow> error + string list"
  decodeFunctionResult :: "string \<Rightarrow> error + nat"

text \<open>
  \<^verbatim>\<open>
  for (let i = 0; i < result.returnData.length; i++) {
    fees[pairIds[i]] = PAIR_INTERFACE.decodeFunctionResult('swapFee()', result.returnData[i])[0];
  }
  \<close>
  The two lists have the same length here. A blob that does not decode throws; the
  \<^verbatim>\<open>catch\<close> of \<^verbatim>\<open>getPairsSwapFee\<close> then returns the fees stored so far.
\<close>

fun decodeFees ::
  "(string \<Rightarrow> error + nat) \<Rightarrow> string list \<Rightarrow> string list \<Rightarrow> (string \<rightharpoonup> nat) \<Rightarrow> (string \<rightharpoonup> nat)" where
  "decodeFees decode (pairId # pairIds) (returnData # rest) fees =
     (case decode returnData of
        Inl e \<Rightarrow> fees
      | Inr fee \<Rightarrow> decodeFees decode pairIds rest (fees(pairId \<mapsto> fee)))"
| "decodeFees decode pairIds returnData fees = fees"

definition getPairsSwapFee :: "multicall \<Rightarrow> string list \<Rightarrow> (string \<rightharpoonup> nat)" where
  "getPairsSwapFee selectedNetwork pairIds =
     (case aggregate selectedNetwork pairIds of
        Inl e \<Rightarrow> Map.empty
      | Inr returnData \<Rightarrow>
          if length pairIds \<noteq> length returnData then Map.empty
          else decodeFees (decodeFunctionResult selectedNetwork) pairIds returnData Map.empty)"

text \<open>
  The subgraph client, one function per query of \<^verbatim>\<open>../apollo/queries\<close> that
  \<^verbatim>\<open>getBulkPairData\<close> sends. A query that throws is \<^verbatim>\<open>Inl\<close>. \<^verbatim>\<open>PAIRS_BULK\<close> answers with
  \<^verbatim>\<open>current.data.pairs\<close> (\<^verbatim>\<open>None\<close> for a falsy \<^verbatim>\<open>current\<close>), \<^verbatim>\<open>PAIRS_HISTORICAL_BULK\<close>
  with \<^verbatim>\<open>result?.data?.pairs\<close> (\<^verbatim>\<open>None\<close> when the result or its data is missing),
  \<^verbatim>\<open>PAIR_DATA\<close> with \<^verbatim>\<open>newData.data.pairs\<close>.
\<close>

record client =
  PAIRS_BULK :: "string list \<Rightarrow> error + pair list option"
  PAIRS_HISTORICAL_BULK :: "nat \<Rightarrow> string list \<Rightarrow> error + pair list option"
  PAIR_DATA :: "string \<Rightarrow> nat \<Rightarrow> error + pair list"

text \<open>\<^verbatim>\<open>pairs.reduce((obj, cur) => { return { ...obj, [cur.id]: cur }; }, {})\<close>\<close>

definition byId :: "pair list \<Rightarrow> (string \<rightharpoonup> pair)" where
  "byId pairs = foldl (\<lambda>obj cur. obj(pair_id cur \<mapsto> cur)) Map.empty pairs"

text \<open>
  \<^verbatim>\<open>
  let oneDayHistory = oneDayData?.[pair.id];
  if (!oneDayHistory) {
    let newData = await client.query({ query: PAIR_DATA(pair.id, b1) });
    oneDayHistory = newData.data.pairs[0];
  }
  \<close>
\<close>

definition history ::
  "client \<Rightarrow> (string \<rightharpoonup> pair) option \<Rightarrow> string \<Rightarrow> nat \<Rightarrow> error + pair option" where
  "history cl historicalData pairId b =
     (case (case historicalData of None \<Rightarrow> None | Some m \<Rightarrow> m pairId) of
        Some h \<Rightarrow> Inr (Some h)
      | None \<Rightarrow>
          (case PAIR_DATA cl pairId b of
             Inl e \<Rightarrow> Inl e
           | Inr pairs \<Rightarrow> Inr (case pairs of [] \<Rightarrow> None | p # ps \<Rightarrow> Some p)))"

text \<open>The callback of \<^verbatim>\<open>current.data.pairs.map(async (pair) => ...)\<close>.\<close>

definition bulkPair ::
  "client \<Rightarrow> (string \<rightharpoonup> nat) \<Rightarrow>
   (string \<rightharpoonup> pair) option \<Rightarrow> (string \<rightharpoonup> pair) option \<Rightarrow> (string \<rightharpoonup> pair) option \<Rightarrow>
   real \<Rightarrow> nat \<Rightarrow> nat \<Rightarrow> nat \<Rightarrow> pair \<Rightarrow> error + pairData" where
  "bulkPair cl swapFees oneDayData twoDayData oneWeekData nativeCurrencyPrice b1 b2 bWeek pair =
     (case history cl oneDayData (pair_id pair) b1 of
        Inl e \<Rightarrow> Inl e
      | Inr oneDayHistory \<Rightarrow>
     (case history cl twoDayData (pair_id pair) b2 of
        Inl e \<Rightarrow> Inl e
      | Inr twoDayHistory \<Rightarrow>
     (case history cl oneWeekData (pair_id pair) bWeek of
        Inl e \<Rightarrow> Inl e
      | Inr oneWeekHistory \<Rightarrow>
          (let data = parseData pair oneDayHistory twoDayHistory oneWeekHistory
                        nativeCurrencyPrice b1
           in Inr (data\<lparr>swapFee :=
                     Some (case swapFees (pair_id pair) of
                             None \<Rightarrow> 25
                           | Some fee \<Rightarrow> if fee = 0 then 25 else fee)\<rparr>)))))"

text \<open>\<^verbatim>\<open>Promise.all\<close> of the callbacks: the list of results, or the first rejection.\<close>

fun promiseAll :: "(error + 'a) list \<Rightarrow> error + 'a list" where
  "promiseAll [] = Inr []"
| "promiseAll (Inl e # ps) = Inl e"
| "promiseAll (Inr x # ps) = (case promiseAll ps of Inl e \<Rightarrow> Inl e | Inr xs \<Rightarrow> Inr (x # xs))"

text \<open>
  The body of the \<^verbatim>\<open>try\<close> block of \<^verbatim>\<open>getBulkPairData\<close>, once the three blocks are known.
\<close>

definition bulkPairsAt ::
  "client \<Rightarrow> multicall \<Rightarrow> string list \<Rightarrow> real \<Rightarrow> nat \<Rightarrow> nat \<Rightarrow> nat \<Rightarrow> error + pairData list" where
  "bulkPairsAt cl selectedNetwork pairList nativeCurrencyPrice b1 b2 bWeek =
     (case PAIRS_BULK cl pairList of
        Inl e \<Rightarrow> Inl e
      | Inr current \<Rightarrow>
     (let swapFees = getPairsSwapFee selectedNetwork pairList
      in
     (case PAIRS_HISTORICAL_BULK cl b1 pairList of
        Inl e \<Rightarrow> Inl e
      | Inr oneDayResult \<Rightarrow>
     (case PAIRS_HISTORICAL_BULK cl b2 pairList of
        Inl e \<Rightarrow> Inl e
      | Inr twoDayResult \<Rightarrow>
     (case PAIRS_HISTORICAL_BULK cl bWeek pairList of
        Inl e \<Rightarrow> Inl e
      | Inr oneWeekResult \<Rightarrow>
     (case current of
        None \<Rightarrow> Inl TypeError
      | Some pairs \<Rightarrow>
          promiseAll
            (map (bulkPair cl swapFees (map_option byId oneDayResult)
                    (map_option byId twoDayResult) (map_option byId oneWeekResult)
                    nativeCurrencyPrice b1 b2 bWeek)
                 pairs)))))))"

text \<open>
  The start of \<^verbatim>\<open>getBulkPairData\<close>, before its \<^verbatim>\<open>try\<close> block:
  \<^verbatim>\<open>
  const [t1, t2, tWeek] = getTimestampsForChanges();
  let b1, b2, bWeek;
  if (Array.isArray(overrideBlocks) && overrideBlocks.length === 3) {
    [b1, b2, bWeek] = overrideBlocks;
  } else {
    [{ number: b1 }, { number: b2 }, { number: bWeek }] = await getBlocksFromTimestamps(blockClient, [t1, t2, tWeek]);
  }
  \<close>
  \<open>timestampsForChanges\<close> is what \<^verbatim>\<open>getTimestampsForChanges()\<close> returns, \<open>blockClient\<close>
  answers \<^verbatim>\<open>getBlocksFromTimestamps(blockClient, [t1, t2, tWeek])\<close>, and
  \<open>overrideBlocks\<close> is \<^verbatim>\<open>None\<close> when the argument is not an array. An exception of the
  block resolution, or an answer that the destructuring cannot take apart (no array,
  or fewer than three blocks), is \<^verbatim>\<open>Inl\<close>.
\<close>

definition changeBlocks ::
  "int \<times> int \<times> int \<Rightarrow> (int list \<Rightarrow> error + block list option) \<Rightarrow> nat list option \<Rightarrow>
   error + nat \<times> nat \<times> nat" where
  "changeBlocks timestampsForChanges blockClient overrideBlocks =
     (let (t1, t2, tWeek) = timestampsForChanges
      in case overrideBlocks of
           Some [b1, b2, bWeek] \<Rightarrow> Inr (b1, b2, bWeek)
         | _ \<Rightarrow>
             (case blockClient [t1, t2, tWeek] of
                Inl e \<Rightarrow> Inl e
              | Inr None \<Rightarrow> Inl TypeError
              | Inr (Some (x1 # x2 # xWeek # xs)) \<Rightarrow> Inr (number x1, number x2, number xWeek)
              | Inr (Some _) \<Rightarrow> Inl TypeError))"

text \<open>
  \<^verbatim>\<open>getBulkPairData(client, blockClient, pairList, nativeCurrencyPrice, selectedNetwork, overrideBlocks)\<close>.
  The blocks are resolved before the \<^verbatim>\<open>try\<close> block: an exception there leaves the
  function (\<^verbatim>\<open>Inl\<close>). An exception inside the \<^verbatim>\<open>try\<close> block is caught and logged, and
  the function returns \<^verbatim>\<open>undefined\<close> (\<^verbatim>\<open>Inr None\<close>).
\<close>

definition getBulkPairData ::
  "int \<times> int \<times> int \<Rightarrow> client \<Rightarrow> (int list \<Rightarrow> error + block list option) \<Rightarrow> string list \<Rightarrow>
   real \<Rightarrow> multicall \<Rightarrow> nat list option \<Rightarrow> error + pairData list option" where
  "getBulkPairData timestampsForChanges cl blockClient pairList nativeCurrencyPrice
      selectedNetwork overrideBlocks =
     (case changeBlocks timestampsForChanges blockClient overrideBlocks of
        Inl e \<Rightarrow> Inl e
      | Inr (b1, b2, bWeek) \<Rightarrow>
          (case bulkPairsAt cl selectedNetwork pairList nativeCurrencyPrice b1 b2 bWeek of
             Inl e \<Rightarrow> Inr None
           | Inr pairData \<Rightarrow> Inr (Some pairData)))"

section \<open>Properties of the reducer\<close>

lemma ownProps_falsy: "\<not> truthy v \<Longrightarrow> ownProps v = Map.empty"
  by (cases v) auto

lemma ownProps_safeAccess:
  "ownProps (orEmptyObject (safeAccess (JObj state) [address])) = ownProps (lookupOr state address)"
  by (simp add: orEmptyObject_def safeAccess_def ownProps_falsy)

text \<open>
  C5. A mutation that targets one key (\<^verbatim>\<open>UPDATE\<close>, \<^verbatim>\<open>UPDATE_PAIR_TXNS\<close>,
  \<^verbatim>\<open>UPDATE_CHART_DATA\<close>, \<^verbatim>\<open>UPDATE_HOURLY_DATA\<close> for key \<open>x\<close>) succeeds and leaves the
  entry of every other key \<open>y\<close> as it was.
\<close>

theorem reducer_isolation:
  assumes "y \<noteq> x"
  shows "(\<exists>s'. reducer state (UPDATE x d) = Inr s' \<and> s' y = state y)
       \<and> (\<exists>s'. reducer state (UPDATE_PAIR_TXNS x d) = Inr s' \<and> s' y = state y)
       \<and> (\<exists>s'. reducer state (UPDATE_CHART_DATA x d) = Inr s' \<and> s' y = state y)
       \<and> (\<exists>s'. reducer state (UPDATE_HOURLY_DATA x d w i) = Inr s' \<and> s' y = state y)"
  using assms by simp

theorem reducer_isolation_witness:
  "''0xb'' \<noteq> ''0xa''
   \<and> (\<exists>s'. reducer [''0xa'' \<mapsto> JObj [''id'' \<mapsto> JStr ''0xa''], ''0xb'' \<mapsto> JObj [''id'' \<mapsto> JStr ''0xb'']]
               (UPDATE_CHART_DATA ''0xa'' (JArr [])) = Inr s'
           \<and> s' ''0xb'' = Some (JObj [''id'' \<mapsto> JStr ''0xb'']))"
  using reducer_isolation [of "''0xb''" "''0xa''"
      "[''0xa'' \<mapsto> JObj [''id'' \<mapsto> JStr ''0xa''], ''0xb'' \<mapsto> JObj [''id'' \<mapsto> JStr ''0xb'']]"
      "JArr []"]
  by simp

text \<open>
  C6. \<^verbatim>\<open>RESET\<close> succeeds; in the new state \<^verbatim>\<open>topPairs\<close> reads as it did before, and
  every other key (pair addresses with their record, \<^verbatim>\<open>txns\<close>, \<^verbatim>\<open>chartData\<close> and hourly
  series, and the mining-campaign status keys) is absent, so it reads \<^verbatim>\<open>undefined\<close>, and
  so does each of its fields.
\<close>

theorem reducer_reset:
  "\<exists>s'. reducer state RESET = Inr s'
        \<and> getProp (JObj s') ''topPairs'' = getProp (JObj state) ''topPairs''
        \<and> (\<forall>k. k \<noteq> ''topPairs'' \<longrightarrow>
               s' k = None \<and> getProp (JObj s') k = JUndefined
               \<and> (\<forall>field. getProp (getProp (JObj s') k) field = JUndefined))"
  by (simp add: lookupOr_def)

lemma reducer_reset_initial: "reducer INITIAL_STATE RESET = Inr INITIAL_STATE"
  by (simp add: INITIAL_STATE_def lookupOr_def)

theorem reducer_reset_witness:
  "\<exists>s'. reducer [''topPairs'' \<mapsto> JObj [''xdai'' \<mapsto> JObj Map.empty],
                  ''0xa'' \<mapsto> JObj [''txns'' \<mapsto> JArr [], ''chartData'' \<mapsto> JArr []],
                  ''active'' \<mapsto> JArr []] RESET = Inr s'
        \<and> getProp (JObj s') ''topPairs'' = JObj [''xdai'' \<mapsto> JObj Map.empty]
        \<and> s' ''0xa'' = None \<and> getProp (JObj s') ''0xa'' = JUndefined
        \<and> s' ''active'' = None \<and> getProp (JObj s') ''active'' = JUndefined"
  using reducer_reset [of "[''topPairs'' \<mapsto> JObj [''xdai'' \<mapsto> JObj Map.empty],
                  ''0xa'' \<mapsto> JObj [''txns'' \<mapsto> JArr [], ''chartData'' \<mapsto> JArr []],
                  ''active'' \<mapsto> JArr []]"]
  by (auto simp: lookupOr_def)

text \<open>
  C8. \<^verbatim>\<open>UPDATE_CHART_DATA\<close> for an address whose entry is a record succeeds; the new
  entry is a record whose \<^verbatim>\<open>chartData\<close> is the payload and whose every other field
  (\<^verbatim>\<open>txns\<close> and the derived volume and liquidity fields among them) is the old one.
\<close>

theorem update_chart_data_frame:
  assumes "state a = Some (JObj record)"
  shows "\<exists>s' record'. reducer state (UPDATE_CHART_DATA a cd) = Inr s'
           \<and> s' a = Some (JObj record')
           \<and> record' ''chartData'' = Some cd
           \<and> (\<forall>f. f \<noteq> ''chartData'' \<longrightarrow> record' f = record f)"
  using assms by (simp add: ownProps_safeAccess lookupOr_def)

theorem update_chart_data_frame_witness:
  "\<exists>s' record'. reducer [''0xa'' \<mapsto> JObj [''txns'' \<mapsto> JArr [JStr ''swap''], ''oneDayVolumeUSD'' \<mapsto> JNum 7]]
                    (UPDATE_CHART_DATA ''0xa'' (JArr [JNum 1])) = Inr s'
           \<and> s' ''0xa'' = Some (JObj record')
           \<and> record' ''chartData'' = Some (JArr [JNum 1])
           \<and> record' ''txns'' = Some (JArr [JStr ''swap''])
           \<and> record' ''oneDayVolumeUSD'' = Some (JNum 7)"
  using update_chart_data_frame [of "[''0xa'' \<mapsto> JObj [''txns'' \<mapsto> JArr [JStr ''swap''], ''oneDayVolumeUSD'' \<mapsto> JNum 7]]"
      "''0xa''" "[''txns'' \<mapsto> JArr [JStr ''swap''], ''oneDayVolumeUSD'' \<mapsto> JNum 7]" "JArr [JNum 1]"]
  by auto

section \<open>Properties of the hourly rate candles\<close>

lemma length_formattedHistoryRate:
  "length (formattedHistoryRate rate values) = length values - 1"
  by (simp add: formattedHistoryRate_def)

lemma nth_formattedHistoryRate:
  "i < length values - 1 \<Longrightarrow>
   formattedHistoryRate rate values ! i =
     \<lparr>candleTimestamp = timestamp (values ! i), candleOpen = rate (values ! i),
      candleClose = rate (values ! (i + 1))\<rparr>"
  by (simp add: formattedHistoryRate_def parseFloatNum_def)

lemma getHourlyRateData_eq:
  "getHourlyRateData gb sq utcEndTime startTime latestBlock =
   getPairRateData gb sq (utcEndTime - 3600) startTime 3600 latestBlock"
  by (simp add: getHourlyRateData_def getPairRateData_def)

lemma getPairRateData_run:
  assumes "hourStartTimes utcEndTime interval startTime [] = Some timestamps" "timestamps \<noteq> []"
    and "gb timestamps = Inr (Some blocks)" "blocks \<noteq> []"
    and "sq (filterBlocks latestBlock blocks) = Inr result"
  shows "getPairRateData gb sq utcEndTime startTime interval latestBlock =
         Some (RateData (formattedHistoryRate rate0 (formatRates result))
                        (formattedHistoryRate rate1 (formatRates result)))"
  using assms by (simp add: getPairRateData_def Let_def)

lemma getPairRateData_NoData:
  assumes "hourStartTimes utcEndTime interval startTime [] = Some timestamps"
    and "timestamps = [] \<or> gb timestamps = Inr None \<or> gb timestamps = Inr (Some [])"
  shows "getPairRateData gb sq utcEndTime startTime interval latestBlock = Some NoData"
  using assms by (auto simp: getPairRateData_def)

lemma getPairRateData_returns:
  assumes "hourStartTimes utcEndTime interval startTime [] = Some timestamps"
  shows "\<exists>r. getPairRateData gb sq utcEndTime startTime interval latestBlock = Some r"
  using assms by (simp add: getPairRateData_def)

lemma hourStartTimes_total:
  "0 < interval \<Longrightarrow> \<exists>ts. hourStartTimes endTime interval time acc = Some ts"
proof (induction endTime interval time acc rule: hourStartTimes.induct)
  case (1 endTime interval time timestamps)
  then show ?case
    by (subst hourStartTimes.simps) auto
qed

text \<open>
  The loop of \<^verbatim>\<open>getHourlyRateData\<close> steps by 3600, so it always returns; so does
  \<^verbatim>\<open>getPairRateData\<close> for a positive interval.
\<close>

lemma getPairRateData_total:
  assumes "0 < interval"
  shows "\<exists>r. getPairRateData gb sq utcEndTime startTime interval latestBlock = Some r"
proof -
  from assms obtain ts where "hourStartTimes utcEndTime interval startTime [] = Some ts"
    using hourStartTimes_total by blast
  then show ?thesis by (rule getPairRateData_returns)
qed

lemma getHourlyRateData_total:
  "\<exists>r. getHourlyRateData gb sq utcEndTime startTime latestBlock = Some r"
  unfolding getHourlyRateData_eq by (rule getPairRateData_total) simp

lemma rate_run_cases:
  assumes "(run = getPairRateData gb sq utcEndTime startTime interval latestBlock
              \<and> hourStartTimes utcEndTime interval startTime [] = Some timestamps)
         \<or> (run = getHourlyRateData gb sq utcEndTime startTime latestBlock
              \<and> hourStartTimes (utcEndTime - 3600) 3600 startTime [] = Some timestamps)"
  obtains e i where "run = getPairRateData gb sq e startTime i latestBlock"
    and "hourStartTimes e i startTime [] = Some timestamps"
  using assms getHourlyRateData_eq by blast

text \<open>
  C2. A run of \<^verbatim>\<open>getPairRateData\<close> or \<^verbatim>\<open>getHourlyRateData\<close> whose loop of hour start
  times ends always returns. When the blocks are resolved and the rate query answers
  with \<open>N\<close> samples (\<^verbatim>\<open>values\<close>), both series have \<open>N - 1\<close> candles (none for \<open>N = 0\<close>), and
  candle \<open>i\<close> opens at the rate of sample \<open>i\<close> and closes at the rate of sample \<open>i + 1\<close>.
  When there is no hour start time or no resolved block, the result is the empty \<^verbatim>\<open>[]\<close>.
\<close>

theorem hourly_candles:
  assumes "(run = getPairRateData gb sq utcEndTime startTime interval latestBlock
              \<and> hourStartTimes utcEndTime interval startTime [] = Some timestamps)
         \<or> (run = getHourlyRateData gb sq utcEndTime startTime latestBlock
              \<and> hourStartTimes (utcEndTime - 3600) 3600 startTime [] = Some timestamps)"
  shows "(timestamps \<noteq> [] \<and> gb timestamps = Inr (Some blocks) \<and> blocks \<noteq> []
            \<and> sq (filterBlocks latestBlock blocks) = Inr result
          \<longrightarrow> (\<exists>c0 c1. run = Some (RateData c0 c1)
                 \<and> length c0 = length (formatRates result) - 1
                 \<and> length c1 = length (formatRates result) - 1
                 \<and> (\<forall>i < length (formatRates result) - 1.
                        candleOpen (c0 ! i) = rate0 (formatRates result ! i)
                      \<and> candleClose (c0 ! i) = rate0 (formatRates result ! (i + 1))
                      \<and> candleOpen (c1 ! i) = rate1 (formatRates result ! i)
                      \<and> candleClose (c1 ! i) = rate1 (formatRates result ! (i + 1)))))
       \<and> (timestamps = [] \<or> gb timestamps = Inr None \<or> gb timestamps = Inr (Some [])
          \<longrightarrow> run = Some NoData)
       \<and> (\<exists>r. run = Some r)"
proof -
  from assms obtain e i where run: "run = getPairRateData gb sq e startTime i latestBlock"
    and ts: "hourStartTimes e i startTime [] = Some timestamps"
    by (rule rate_run_cases)
  let ?vs = "formatRates result"
  have "run = Some (RateData (formattedHistoryRate rate0 ?vs)
                             (formattedHistoryRate rate1 ?vs))"
    if "timestamps \<noteq> []" "gb timestamps = Inr (Some blocks)" "blocks \<noteq> []"
       "sq (filterBlocks latestBlock blocks) = Inr result"
    unfolding run using ts that by (rule getPairRateData_run)
  moreover have "run = Some NoData"
    if "timestamps = [] \<or> gb timestamps = Inr None \<or> gb timestamps = Inr (Some [])"
    unfolding run using ts that by (rule getPairRateData_NoData)
  moreover have "\<exists>r. run = Some r"
    unfolding run using ts by (rule getPairRateData_returns)
  ultimately show ?thesis
    by (simp add: length_formattedHistoryRate nth_formattedHistoryRate)
qed

theorem hourly_candles_witness:
  "hourStartTimes 7200 3600 0 [] = Some [0, 3600, 7200]
   \<and> (\<exists>c0 c1. getPairRateData
        (\<lambda>ts. Inr (Some [\<lparr>blockTimestamp = ''0'', number = 10\<rparr>,
                          \<lparr>blockTimestamp = ''3600'', number = 20\<rparr>,
                          \<lparr>blockTimestamp = ''7200'', number = 30\<rparr>]))
        (\<lambda>bs. Inr [(''t0'', Some \<lparr>token0Price = Num 2, token1Price = Num 5\<rparr>),
                    (''t3600'', Some \<lparr>token0Price = Num 3, token1Price = Num 6\<rparr>),
                    (''t7200'', Some \<lparr>token0Price = Num 4, token1Price = Num 7\<rparr>)])
        7200 0 3600 None = Some (RateData c0 c1)
      \<and> length c0 = 2 \<and> length c1 = 2
      \<and> candleOpen (c0 ! 0) = Num 2 \<and> candleClose (c0 ! 0) = Num 3
      \<and> candleOpen (c0 ! 1) = Num 3 \<and> candleClose (c0 ! 1) = Num 4
      \<and> candleOpen (c1 ! 0) = Num 5 \<and> candleClose (c1 ! 0) = Num 6
      \<and> candleOpen (c1 ! 1) = Num 6 \<and> candleClose (c1 ! 1) = Num 7)"
proof -
  have h: "hourStartTimes 7200 3600 0 [] = Some [0, 3600, 7200]"
    by (simp add: hourStartTimes.simps)
  show ?thesis
    using h hourly_candles [where run = "getPairRateData
        (\<lambda>ts. Inr (Some [\<lparr>blockTimestamp = ''0'', number = 10\<rparr>,
                          \<lparr>blockTimestamp = ''3600'', number = 20\<rparr>,
                          \<lparr>blockTimestamp = ''7200'', number = 30\<rparr>]))
        (\<lambda>bs. Inr [(''t0'', Some \<lparr>token0Price = Num 2, token1Price = Num 5\<rparr>),
                    (''t3600'', Some \<lparr>token0Price = Num 3, token1Price = Num 6\<rparr>),
                    (''t7200'', Some \<lparr>token0Price = Num 4, token1Price = Num 7\<rparr>)])
        7200 0 3600 None"
      and gb = "\<lambda>ts. Inr (Some [\<lparr>blockTimestamp = ''0'', number = 10\<rparr>,
                          \<lparr>blockTimestamp = ''3600'', number = 20\<rparr>,
                          \<lparr>blockTimestamp = ''7200'', number = 30\<rparr>])"
      and blocks = "[\<lparr>blockTimestamp = ''0'', number = 10\<rparr>,
                          \<lparr>blockTimestamp = ''3600'', number = 20\<rparr>,
                          \<lparr>blockTimestamp = ''7200'', number = 30\<rparr>]"
      and sq = "\<lambda>bs. Inr [(''t0'', Some \<lparr>token0Price = Num 2, token1Price = Num 5\<rparr>),
                    (''t3600'', Some \<lparr>token0Price = Num 3, token1Price = Num 6\<rparr>),
                    (''t7200'', Some \<lparr>token0Price = Num 4, token1Price = Num 7\<rparr>)]"
      and latestBlock = None
      and utcEndTime = 7200 and startTime = 0 and interval = 3600
      and timestamps = "[0, 3600, 7200]"
      and result = "[(''t0'', Some \<lparr>token0Price = Num 2, token1Price = Num 5\<rparr>),
                    (''t3600'', Some \<lparr>token0Price = Num 3, token1Price = Num 6\<rparr>),
                    (''t7200'', Some \<lparr>token0Price = Num 4, token1Price = Num 7\<rparr>)]"]
    by (auto simp: rowTimestamp_def rowRate_def All_less_Suc)
qed

text \<open>
  C9. With a latest synced block \<open>lb\<close> supplied, no block beyond \<open>lb\<close> is left after the
  filter, the blocks up to \<open>lb\<close> stay in their order, and the result of both functions
  does not depend on what the rate query would answer for any list holding a block
  beyond \<open>lb\<close>.
\<close>

theorem latest_block_filter:
  assumes "latestBlock = Some lb"
    and "\<forall>bs. (\<forall>b \<in> set bs. number b \<le> lb) \<longrightarrow> sq bs = sq' bs"
  shows "(\<forall>b \<in> set blocks. lb < number b \<longrightarrow> b \<notin> set (filterBlocks latestBlock blocks))
       \<and> filterBlocks latestBlock blocks = filter (\<lambda>b. number b \<le> lb) blocks
       \<and> getPairRateData gb sq utcEndTime startTime interval latestBlock
         = getPairRateData gb sq' utcEndTime startTime interval latestBlock
       \<and> getHourlyRateData gb sq utcEndTime startTime latestBlock
         = getHourlyRateData gb sq' utcEndTime startTime latestBlock"
proof -
  have eq: "sq (filterBlocks latestBlock bs) = sq' (filterBlocks latestBlock bs)" for bs
    using assms by (simp add: filterBlocks_def)
  have pair: "getPairRateData gb sq e s i latestBlock = getPairRateData gb sq' e s i latestBlock"
    for e s i
    by (auto simp: getPairRateData_def eq split: option.splits sum.splits)
  have "\<forall>b \<in> set blocks. lb < number b \<longrightarrow> b \<notin> set (filterBlocks latestBlock blocks)"
    using assms(1) by (auto simp: filterBlocks_def)
  moreover have "filterBlocks latestBlock blocks = filter (\<lambda>b. number b \<le> lb) blocks"
    using assms(1) by (simp add: filterBlocks_def)
  ultimately show ?thesis
    using pair by (simp only: getHourlyRateData_eq simp_thms)
qed

theorem latest_block_filter_witness:
  "getPairRateData
     (\<lambda>ts. Inr (Some [\<lparr>blockTimestamp = ''0'', number = 10\<rparr>,
                       \<lparr>blockTimestamp = ''3600'', number = 20\<rparr>,
                       \<lparr>blockTimestamp = ''7200'', number = 30\<rparr>]))
     (\<lambda>bs. Inr (map (\<lambda>b. (CHR ''t'' # blockTimestamp b,
                            Some \<lparr>token0Price = Num 2, token1Price = Num 5\<rparr>)) bs))
     7200 0 3600 (Some 20)
   = getPairRateData
     (\<lambda>ts. Inr (Some [\<lparr>blockTimestamp = ''0'', number = 10\<rparr>,
                       \<lparr>blockTimestamp = ''3600'', number = 20\<rparr>,
                       \<lparr>blockTimestamp = ''7200'', number = 30\<rparr>]))
     (\<lambda>bs. if \<forall>b \<in> set bs. number b \<le> 20
            then Inr (map (\<lambda>b. (CHR ''t'' # blockTimestamp b,
                            Some \<lparr>token0Price = Num 2, token1Price = Num 5\<rparr>)) bs)
            else Inl QueryError)
     7200 0 3600 (Some 20)
   \<and> \<lparr>blockTimestamp = ''7200'', number = 30\<rparr>
       \<notin> set (filterBlocks (Some 20) [\<lparr>blockTimestamp = ''0'', number = 10\<rparr>,
                       \<lparr>blockTimestamp = ''3600'', number = 20\<rparr>,
                       \<lparr>blockTimestamp = ''7200'', number = 30\<rparr>])"
  using latest_block_filter [where latestBlock = "Some 20" and lb = 20
      and sq = "\<lambda>bs. Inr (map (\<lambda>b. (CHR ''t'' # blockTimestamp b,
                            Some \<lparr>token0Price = Num 2, token1Price = Num 5\<rparr>)) bs)"
      and sq' = "\<lambda>bs. if \<forall>b \<in> set bs. number b \<le> 20
            then Inr (map (\<lambda>b. (CHR ''t'' # blockTimestamp b,
                            Some \<lparr>token0Price = Num 2, token1Price = Num 5\<rparr>)) bs)
            else Inl QueryError"
      and blocks = "[\<lparr>blockTimestamp = ''0'', number = 10\<rparr>,
                       \<lparr>blockTimestamp = ''3600'', number = 20\<rparr>,
                       \<lparr>blockTimestamp = ''7200'', number = 30\<rparr>]"
      and gb = "\<lambda>ts. Inr (Some [\<lparr>blockTimestamp = ''0'', number = 10\<rparr>,
                       \<lparr>blockTimestamp = ''3600'', number = 20\<rparr>,
                       \<lparr>blockTimestamp = ''7200'', number = 30\<rparr>])"
      and utcEndTime = 7200 and startTime = 0 and interval = 3600]
  by simp

text \<open>
  C10. In a run that resolves its blocks and gets an answer from the rate query, the
  two series have the same length, and at every index both candles carry the timestamp
  of the sample at that index.
\<close>

theorem candle_timestamps:
  assumes "(run = getPairRateData gb sq utcEndTime startTime interval latestBlock
              \<and> hourStartTimes utcEndTime interval startTime [] = Some timestamps)
         \<or> (run = getHourlyRateData gb sq utcEndTime startTime latestBlock
              \<and> hourStartTimes (utcEndTime - 3600) 3600 startTime [] = Some timestamps)"
    and "timestamps \<noteq> []" "gb timestamps = Inr (Some blocks)" "blocks \<noteq> []"
    and "sq (filterBlocks latestBlock blocks) = Inr result"
  shows "\<exists>c0 c1. run = Some (RateData c0 c1)
           \<and> length c0 = length c1
           \<and> (\<forall>i < length c0.
                  candleTimestamp (c0 ! i) = timestamp (formatRates result ! i)
                \<and> candleTimestamp (c1 ! i) = timestamp (formatRates result ! i))"
proof -
  from assms(1) obtain e i where run: "run = getPairRateData gb sq e startTime i latestBlock"
    and ts: "hourStartTimes e i startTime [] = Some timestamps"
    by (rule rate_run_cases)
  have "run = Some (RateData (formattedHistoryRate rate0 (formatRates result))
                             (formattedHistoryRate rate1 (formatRates result)))"
    unfolding run using ts assms(2-5) by (rule getPairRateData_run)
  then show ?thesis
    by (simp add: length_formattedHistoryRate nth_formattedHistoryRate)
qed

theorem candle_timestamps_witness:
  "\<exists>c0 c1. getHourlyRateData
        (\<lambda>ts. Inr (Some [\<lparr>blockTimestamp = ''0'', number = 10\<rparr>,
                          \<lparr>blockTimestamp = ''3600'', number = 20\<rparr>]))
        (\<lambda>bs. Inr [(''t0'', Some \<lparr>token0Price = Num 2, token1Price = Num 5\<rparr>),
                    (''t3600'', Some \<lparr>token0Price = Num 3, token1Price = Num 6\<rparr>)])
        7200 0 None = Some (RateData c0 c1)
      \<and> length c0 = 1 \<and> length c1 = 1
      \<and> candleTimestamp (c0 ! 0) = ''0'' \<and> candleTimestamp (c1 ! 0) = ''0''"
proof -
  have h: "hourStartTimes (7200 - 3600) 3600 0 [] = Some [0, 3600]"
    by (simp add: hourStartTimes.simps)
  show ?thesis
    using candle_timestamps [where run = "getHourlyRateData
        (\<lambda>ts. Inr (Some [\<lparr>blockTimestamp = ''0'', number = 10\<rparr>,
                          \<lparr>blockTimestamp = ''3600'', number = 20\<rparr>]))
        (\<lambda>bs. Inr [(''t0'', Some \<lparr>token0Price = Num 2, token1Price = Num 5\<rparr>),
                    (''t3600'', Some \<lparr>token0Price = Num 3, token1Price = Num 6\<rparr>)])
        7200 0 None"
      and gb = "\<lambda>ts. Inr (Some [\<lparr>blockTimestamp = ''0'', number = 10\<rparr>,
                          \<lparr>blockTimestamp = ''3600'', number = 20\<rparr>])"
      and blocks = "[\<lparr>blockTimestamp = ''0'', number = 10\<rparr>,
                          \<lparr>blockTimestamp = ''3600'', number = 20\<rparr>]"
      and sq = "\<lambda>bs. Inr [(''t0'', Some \<lparr>token0Price = Num 2, token1Price = Num 5\<rparr>),
                    (''t3600'', Some \<lparr>token0Price = Num 3, token1Price = Num 6\<rparr>)]"
      and latestBlock = None
      and utcEndTime = 7200 and startTime = 0 and interval = 3600
      and timestamps = "[0, 3600]"
      and result = "[(''t0'', Some \<lparr>token0Price = Num 2, token1Price = Num 5\<rparr>),
                    (''t3600'', Some \<lparr>token0Price = Num 3, token1Price = Num 6\<rparr>)]", OF _ _ refl _ refl]
      h
    by (simp add: getHourlyRateData_def rowTimestamp_def rowRate_def filterBlocks_def
          formattedHistoryRate_def)
qed

section \<open>Properties of the metric derivation\<close>

lemma parseData_oneDay_absent:
  "oneDayVolumeUSD (parseData data None twoDayData oneWeekData nativeCurrencyPrice oneDayBlock)
   = volumeUSD data"
  by (simp add: parseData_def Let_def split: prod.splits)

lemma parseData_oneDay_present:
  "oneDayVolumeUSD (parseData data (Some d) twoDayData oneWeekData nativeCurrencyPrice oneDayBlock)
   = fst (get2DayPercentChange (volumeUSD data) (volumeUSD d)
            (case twoDayData of Some t \<Rightarrow> volumeUSD t | None \<Rightarrow> 0))"
  by (simp add: parseData_def Let_def split: prod.splits)

text \<open>
  C3, as stated, fails: with a one-day snapshot present, a creation block (95) after the
  one-day reference block (90) does not force the one-day volume to the lifetime volume
  (100); it is the two-window delta 100 - 40.
\<close>

theorem parseData_created_after_counterexample:
  "createdAtBlockNumber
     \<lparr>pair_id = ''0xa'', volumeUSD = 100, untrackedVolumeUSD = 0, reserveUSD = 10,
      trackedReserveNativeCurrency = 1, createdAtBlockNumber = 95\<rparr> > 90
   \<and> oneDayVolumeUSD
       (parseData
          \<lparr>pair_id = ''0xa'', volumeUSD = 100, untrackedVolumeUSD = 0, reserveUSD = 10,
           trackedReserveNativeCurrency = 1, createdAtBlockNumber = 95\<rparr>
          (Some \<lparr>pair_id = ''0xa'', volumeUSD = 40, untrackedVolumeUSD = 0, reserveUSD = 10,
                 trackedReserveNativeCurrency = 1, createdAtBlockNumber = 95\<rparr>)
          None None 1 90)
     \<noteq> volumeUSD
         \<lparr>pair_id = ''0xa'', volumeUSD = 100, untrackedVolumeUSD = 0, reserveUSD = 10,
          trackedReserveNativeCurrency = 1, createdAtBlockNumber = 95\<rparr>"
  by (simp add: parseData_def get2DayPercentChange_def Let_def)

text \<open>
  C3, amended. When the one-day snapshot is absent, the one-day volume of the returned
  record is the lifetime volume, whatever the two-window computation produced and
  whether or not the creation block is after the reference block; in particular when
  it is after it.
\<close>

theorem parseData_one_day_volume:
  assumes "oneDayData = None"
  shows "oneDayVolumeUSD (parseData data oneDayData twoDayData oneWeekData nativeCurrencyPrice oneDayBlock)
         = volumeUSD data"
  using assms by (simp add: parseData_oneDay_absent)

theorem parseData_one_day_volume_witness:
  "oneDayVolumeUSD
       (parseData
          \<lparr>pair_id = ''0xa'', volumeUSD = 100, untrackedVolumeUSD = 0, reserveUSD = 10,
           trackedReserveNativeCurrency = 1, createdAtBlockNumber = 95\<rparr>
          None
          (Some \<lparr>pair_id = ''0xa'', volumeUSD = 40, untrackedVolumeUSD = 0, reserveUSD = 10,
                 trackedReserveNativeCurrency = 1, createdAtBlockNumber = 95\<rparr>)
          None 1 90) = 100"
  using parseData_one_day_volume [OF refl,
    of "\<lparr>pair_id = ''0xa'', volumeUSD = 100, untrackedVolumeUSD = 0, reserveUSD = 10,
           trackedReserveNativeCurrency = 1, createdAtBlockNumber = 95\<rparr>"
       "Some \<lparr>pair_id = ''0xa'', volumeUSD = 40, untrackedVolumeUSD = 0, reserveUSD = 10,
                 trackedReserveNativeCurrency = 1, createdAtBlockNumber = 95\<rparr>"
       None 1 90]
  by simp

section \<open>Properties of the bulk pair fetch\<close>

text \<open>
  C4, the failing run: no override blocks are given and the block resolution throws.
  The exception is not caught: it leaves \<^verbatim>\<open>getBulkPairData\<close>, whatever the subgraph
  client would have answered.
\<close>

theorem getBulkPairData_block_resolution_throws:
  "getBulkPairData (86400, 172800, 604800) cl (\<lambda>timestamps. Inl QueryError) [''0xa'']
     1 selectedNetwork None = Inl QueryError"
  by (simp add: getBulkPairData_def changeBlocks_def)

lemma promiseAll_Inr:
  "promiseAll ps = Inr xs \<Longrightarrow> ps = map Inr xs"
proof (induction ps arbitrary: xs)
  case Nil
  then show ?case by simp
next
  case (Cons p ps)
  then show ?case
    by (cases p) (auto split: sum.splits)
qed

lemma promiseAll_member:
  assumes "promiseAll (map f ps) = Inr xs" "x \<in> set xs"
  shows "\<exists>p \<in> set ps. f p = Inr x"
proof -
  from assms(1) have "map f ps = map Inr xs" by (rule promiseAll_Inr)
  then have "set (map f ps) = set (map Inr xs)" by simp
  with assms(2) have "Inr x \<in> f ` set ps" by auto
  then show ?thesis by auto
qed

lemma promiseAll_map_sum:
  "promiseAll (map (map_sum (\<lambda>e. e) f) ps) = map_sum (\<lambda>e. e) (map f) (promiseAll ps)"
proof (induction ps)
  case Nil
  then show ?case by simp
next
  case (Cons p ps)
  then show ?case
    by (cases p) (auto split: sum.splits)
qed

lemma bulkPairsAt_Inr:
  assumes "bulkPairsAt cl mc pairList price b1 b2 bWeek = Inr recs"
  obtains pairs d1 d2 dw where "PAIRS_BULK cl pairList = Inr (Some pairs)"
    and "promiseAll (map (bulkPair cl (getPairsSwapFee mc pairList) d1 d2 dw price b1 b2 bWeek) pairs)
          = Inr recs"
proof (cases "PAIRS_BULK cl pairList")
  case (Inl e)
  with assms show ?thesis by (simp add: bulkPairsAt_def)
next
  case cur: (Inr current)
  show ?thesis
  proof (cases "PAIRS_HISTORICAL_BULK cl b1 pairList")
    case (Inl e)
    with assms cur show ?thesis by (simp add: bulkPairsAt_def)
  next
    case r1: (Inr oneDayResult)
    show ?thesis
    proof (cases "PAIRS_HISTORICAL_BULK cl b2 pairList")
      case (Inl e)
      with assms cur r1 show ?thesis by (simp add: bulkPairsAt_def)
    next
      case r2: (Inr twoDayResult)
      show ?thesis
      proof (cases "PAIRS_HISTORICAL_BULK cl bWeek pairList")
        case (Inl e)
        with assms cur r1 r2 show ?thesis by (simp add: bulkPairsAt_def)
      next
        case rw: (Inr oneWeekResult)
        show ?thesis
        proof (cases current)
          case None
          with assms cur r1 r2 rw show ?thesis by (simp add: bulkPairsAt_def)
        next
          case (Some pairs)
          with assms cur r1 r2 rw that show ?thesis by (simp add: bulkPairsAt_def)
        qed
      qed
    qed
  qed
qed

lemma getBulkPairData_Some:
  assumes "getBulkPairData ts cl bc pairList price mc ov = Inr (Some recs)"
  obtains b1 b2 bWeek where "changeBlocks ts bc ov = Inr (b1, b2, bWeek)"
    and "bulkPairsAt cl mc pairList price b1 b2 bWeek = Inr recs"
proof (cases "changeBlocks ts bc ov")
  case (Inl e)
  with assms show ?thesis by (simp add: getBulkPairData_def)
next
  case (Inr bs)
  obtain b1 b2 bWeek where bs: "bs = (b1, b2, bWeek)" by (cases bs) auto
  show ?thesis
  proof (cases "bulkPairsAt cl mc pairList price b1 b2 bWeek")
    case (Inl e)
    with assms Inr bs show ?thesis by (simp add: getBulkPairData_def)
  next
    case at: (Inr recs')
    with assms Inr bs have "recs' = recs" by (simp add: getBulkPairData_def)
    with Inr bs at that show ?thesis by simp
  qed
qed

lemma bulkPair_id:
  "bulkPair cl fees d1 d2 dw price b1 b2 bWeek p = Inr d \<Longrightarrow> pair_id d = pair_id p"
  by (auto simp: bulkPair_def parseData_def Let_def split: sum.splits prod.splits)

lemma bulkPairsAt_ids:
  assumes "bulkPairsAt cl mc pairList price b1 b2 bWeek = Inr recs"
  shows "\<exists>pairs. PAIRS_BULK cl pairList = Inr (Some pairs) \<and> map pair_id recs = map pair_id pairs"
proof -
  from assms obtain pairs fees d1 d2 dw where cur: "PAIRS_BULK cl pairList = Inr (Some pairs)"
    and all: "promiseAll (map (bulkPair cl fees d1 d2 dw price b1 b2 bWeek) pairs) = Inr recs"
    by (rule bulkPairsAt_Inr)
  from all have eq: "map (bulkPair cl fees d1 d2 dw price b1 b2 bWeek) pairs = map Inr recs"
    by (rule promiseAll_Inr)
  then have len: "length pairs = length recs"
    by (metis length_map)
  have "pair_id (recs ! i) = pair_id (pairs ! i)" if "i < length recs" for i
  proof -
    have "bulkPair cl fees d1 d2 dw price b1 b2 bWeek (pairs ! i) = Inr (recs ! i)"
      using eq that len by (metis nth_map)
    then show ?thesis by (rule bulkPair_id)
  qed
  then have "map pair_id recs = map pair_id pairs"
    using len by (simp add: list_eq_iff_nth_eq)
  with cur show ?thesis by blast
qed

text \<open>
  Once the blocks are known, nothing leaves \<^verbatim>\<open>getBulkPairData\<close> as an exception, and a
  result that is not \<^verbatim>\<open>undefined\<close> holds one record for every pair of the current query.
\<close>

lemma getBulkPairData_no_partial:
  assumes "changeBlocks ts bc ov = Inr (b1, b2, bWeek)"
  shows "getBulkPairData ts cl bc pairList price mc ov = Inr None \<or>
   (\<exists>pairs recs. PAIRS_BULK cl pairList = Inr (Some pairs)
       \<and> getBulkPairData ts cl bc pairList price mc ov = Inr (Some recs)
       \<and> map pair_id recs = map pair_id pairs)"
proof (cases "bulkPairsAt cl mc pairList price b1 b2 bWeek")
  case (Inl e)
  with assms show ?thesis
    by (simp add: getBulkPairData_def)
next
  case (Inr recs)
  with bulkPairsAt_ids [OF Inr] assms show ?thesis
    by (simp add: getBulkPairData_def)
qed

lemma decodeFees_fetched:
  "decodeFees decode pairIds returnData fees k = Some fee \<Longrightarrow>
   fees k = Some fee \<or>
   (\<exists>i. i < length pairIds \<and> i < length returnData \<and> pairIds ! i = k
        \<and> decode (returnData ! i) = Inr fee)"
proof (induction decode pairIds returnData fees rule: decodeFees.induct)
  case (1 decode pairId pairIds returnData rest fees)
  show ?case
  proof (cases "decode returnData")
    case (Inl e)
    with "1.prems" show ?thesis by simp
  next
    case (Inr f)
    with "1.prems" have "decodeFees decode pairIds rest (fees(pairId \<mapsto> f)) k = Some fee"
      by simp
    from "1.IH" [OF Inr this] show ?thesis
    proof
      assume "(fees(pairId \<mapsto> f)) k = Some fee"
      then show ?thesis
        using Inr by (cases "k = pairId") (auto intro!: exI [of _ 0])
    next
      assume "\<exists>i. i < length pairIds \<and> i < length rest \<and> pairIds ! i = k
                \<and> decode (rest ! i) = Inr fee"
      then obtain i where "i < length pairIds" "i < length rest" "pairIds ! i = k"
        "decode (rest ! i) = Inr fee" by blast
      then show ?thesis
        by (auto intro!: exI [of _ "Suc i"])
    qed
  qed
qed simp_all

lemma getPairsSwapFee_fetched:
  assumes "getPairsSwapFee mc pairIds k = Some fee"
  shows "\<exists>returnData i. aggregate mc pairIds = Inr returnData
           \<and> length returnData = length pairIds \<and> i < length pairIds \<and> pairIds ! i = k
           \<and> decodeFunctionResult mc (returnData ! i) = Inr fee"
proof (cases "aggregate mc pairIds")
  case (Inl e)
  with assms show ?thesis by (simp add: getPairsSwapFee_def)
next
  case (Inr returnData)
  show ?thesis
  proof (cases "length pairIds = length returnData")
    case False
    with assms Inr show ?thesis by (simp add: getPairsSwapFee_def)
  next
    case True
    with assms Inr
    have "decodeFees (decodeFunctionResult mc) pairIds returnData Map.empty k = Some fee"
      by (simp add: getPairsSwapFee_def)
    from decodeFees_fetched [OF this] Inr True show ?thesis
      by auto
  qed
qed

lemma bulkPair_swapFee:
  "bulkPair cl fees d1 d2 dw price b1 b2 bWeek p = Inr d \<Longrightarrow>
   swapFee d = Some 25 \<or> (\<exists>fee. fees (pair_id p) = Some fee \<and> swapFee d = Some fee)"
  by (auto simp: bulkPair_def Let_def split: sum.splits option.splits)

lemma bulkPair_fees_irrelevant:
  "map_sum (\<lambda>e. e) (\<lambda>d. d\<lparr>swapFee := None\<rparr>) (bulkPair cl fees d1 d2 dw price b1 b2 bWeek p)
   = map_sum (\<lambda>e. e) (\<lambda>d. d\<lparr>swapFee := None\<rparr>) (bulkPair cl fees' d1 d2 dw price b1 b2 bWeek p)"
  by (auto simp: bulkPair_def Let_def split: sum.splits)

lemma bulkPairsAt_swapFee:
  assumes "bulkPairsAt cl mc pairList price b1 b2 bWeek = Inr recs" "r \<in> set recs"
  shows "swapFee r = Some 25 \<or>
         (\<exists>fee. getPairsSwapFee mc pairList (pair_id r) = Some fee \<and> swapFee r = Some fee)"
proof -
  from assms(1) obtain pairs d1 d2 dw where
    all: "promiseAll (map (bulkPair cl (getPairsSwapFee mc pairList) d1 d2 dw price b1 b2 bWeek) pairs)
          = Inr recs"
    by (rule bulkPairsAt_Inr)
  from promiseAll_member [OF all assms(2)]
  obtain p where p: "bulkPair cl (getPairsSwapFee mc pairList) d1 d2 dw price b1 b2 bWeek p = Inr r"
    by blast
  from bulkPair_swapFee [OF p] bulkPair_id [OF p] show ?thesis
    by auto
qed

lemma promiseAll_fees_irrelevant:
  "map_sum (\<lambda>e. e) (map (\<lambda>d. d\<lparr>swapFee := None\<rparr>))
     (promiseAll (map (bulkPair cl fees d1 d2 dw price b1 b2 bWeek) pairs))
   = map_sum (\<lambda>e. e) (map (\<lambda>d. d\<lparr>swapFee := None\<rparr>))
     (promiseAll (map (bulkPair cl fees' d1 d2 dw price b1 b2 bWeek) pairs))"
  unfolding promiseAll_map_sum [symmetric] map_map comp_def
  by (simp add: bulkPair_fees_irrelevant [of cl fees _ _ _ _ _ _ _ _ fees'])

lemma bulkPairsAt_multicall_irrelevant:
  "map_sum (\<lambda>e. e) (map (\<lambda>d. d\<lparr>swapFee := None\<rparr>)) (bulkPairsAt cl mc pairList price b1 b2 bWeek)
   = map_sum (\<lambda>e. e) (map (\<lambda>d. d\<lparr>swapFee := None\<rparr>)) (bulkPairsAt cl mc' pairList price b1 b2 bWeek)"
proof (cases "PAIRS_BULK cl pairList")
  case (Inl e)
  then show ?thesis by (simp add: bulkPairsAt_def)
next
  case cur: (Inr current)
  show ?thesis
  proof (cases "PAIRS_HISTORICAL_BULK cl b1 pairList")
    case (Inl e)
    with cur show ?thesis by (simp add: bulkPairsAt_def)
  next
    case r1: (Inr oneDayResult)
    show ?thesis
    proof (cases "PAIRS_HISTORICAL_BULK cl b2 pairList")
      case (Inl e)
      with cur r1 show ?thesis by (simp add: bulkPairsAt_def)
    next
      case r2: (Inr twoDayResult)
      show ?thesis
      proof (cases "PAIRS_HISTORICAL_BULK cl bWeek pairList")
        case (Inl e)
        with cur r1 r2 show ?thesis by (simp add: bulkPairsAt_def)
      next
        case rw: (Inr oneWeekResult)
        show ?thesis
        proof (cases current)
          case None
          with cur r1 r2 rw show ?thesis by (simp add: bulkPairsAt_def)
        next
          case (Some pairs)
          with cur r1 r2 rw show ?thesis
            by (simp add: bulkPairsAt_def
                  promiseAll_fees_irrelevant [of cl "getPairsSwapFee mc pairList" _ _ _ _ _ _ _ _
                    "getPairsSwapFee mc' pairList"])
        qed
      qed
    qed
  qed
qed

lemma getBulkPairData_multicall_irrelevant:
  "map_sum (\<lambda>e. e) (map_option (map (\<lambda>d. d\<lparr>swapFee := None\<rparr>)))
     (getBulkPairData ts cl bc pairList price mc ov)
   = map_sum (\<lambda>e. e) (map_option (map (\<lambda>d. d\<lparr>swapFee := None\<rparr>)))
     (getBulkPairData ts cl bc pairList price mc' ov)"
proof (cases "changeBlocks ts bc ov")
  case (Inl e)
  then show ?thesis by (simp add: getBulkPairData_def)
next
  case (Inr bs)
  obtain b1 b2 bWeek where bs: "bs = (b1, b2, bWeek)" by (cases bs) auto
  from bulkPairsAt_multicall_irrelevant [of cl mc pairList price b1 b2 bWeek mc']
  show ?thesis
    by (cases "bulkPairsAt cl mc pairList price b1 b2 bWeek";
        cases "bulkPairsAt cl mc' pairList price b1 b2 bWeek")
       (simp_all add: getBulkPairData_def Inr bs)
qed

text \<open>
  C7. In every batch that \<^verbatim>\<open>getBulkPairData\<close> returns, the swap fee of a record is 25
  or the fee that the multicall returned and decoded for that pair. The multicall
  cannot fail the batch: with any other multicall the same records are produced, up to
  their swap fee, and with one whose \<^verbatim>\<open>aggregate\<close> throws every record has the fee 25.
\<close>

theorem swap_fee_default:
  assumes "getBulkPairData ts cl bc pairList price mc ov = Inr (Some recs)"
  shows "(\<forall>r \<in> set recs.
            swapFee r = Some 25 \<or>
            (\<exists>returnData i fee. aggregate mc pairList = Inr returnData
                \<and> length returnData = length pairList \<and> i < length pairList
                \<and> pairList ! i = pair_id r
                \<and> decodeFunctionResult mc (returnData ! i) = Inr fee
                \<and> swapFee r = Some fee))
       \<and> (\<forall>mc' :: multicall. \<exists>recs'. getBulkPairData ts cl bc pairList price mc' ov = Inr (Some recs')
                \<and> map (\<lambda>d. d\<lparr>swapFee := None\<rparr>) recs' = map (\<lambda>d. d\<lparr>swapFee := None\<rparr>) recs)
       \<and> (\<forall>(mc' :: multicall) e. aggregate mc' pairList = Inl e \<longrightarrow>
             getBulkPairData ts cl bc pairList price mc' ov
             = Inr (Some (map (\<lambda>d. d\<lparr>swapFee := Some 25\<rparr>) recs)))"
proof (intro conjI allI impI ballI)
  fix r assume r: "r \<in> set recs"
  from assms obtain b1 b2 bWeek where "bulkPairsAt cl mc pairList price b1 b2 bWeek = Inr recs"
    by (rule getBulkPairData_Some)
  from bulkPairsAt_swapFee [OF this r] getPairsSwapFee_fetched [of mc pairList "pair_id r"]
  show "swapFee r = Some 25 \<or>
            (\<exists>returnData i fee. aggregate mc pairList = Inr returnData
                \<and> length returnData = length pairList \<and> i < length pairList
                \<and> pairList ! i = pair_id r
                \<and> decodeFunctionResult mc (returnData ! i) = Inr fee
                \<and> swapFee r = Some fee)"
    by blast
next
  fix mc' :: multicall
  from getBulkPairData_multicall_irrelevant [of ts cl bc pairList price mc' ov mc] assms
  show "\<exists>recs'. getBulkPairData ts cl bc pairList price mc' ov = Inr (Some recs')
                \<and> map (\<lambda>d. d\<lparr>swapFee := None\<rparr>) recs' = map (\<lambda>d. d\<lparr>swapFee := None\<rparr>) recs"
    by (cases "getBulkPairData ts cl bc pairList price mc' ov") auto
next
  fix mc' :: multicall and e assume fail: "aggregate mc' pairList = Inl e"
  from getBulkPairData_multicall_irrelevant [of ts cl bc pairList price mc' ov mc] assms
  obtain recs' where recs': "getBulkPairData ts cl bc pairList price mc' ov = Inr (Some recs')"
    and same: "map (\<lambda>d. d\<lparr>swapFee := None\<rparr>) recs' = map (\<lambda>d. d\<lparr>swapFee := None\<rparr>) recs"
    by (cases "getBulkPairData ts cl bc pairList price mc' ov") auto
  from recs' obtain b1 b2 bWeek where at: "bulkPairsAt cl mc' pairList price b1 b2 bWeek = Inr recs'"
    by (rule getBulkPairData_Some)
  have none: "getPairsSwapFee mc' pairList k = None" for k
    using fail by (simp add: getPairsSwapFee_def)
  have "swapFee r = Some 25" if "r \<in> set recs'" for r
    using bulkPairsAt_swapFee [OF at that] none by auto
  then have "recs' = map (\<lambda>d. d\<lparr>swapFee := Some 25\<rparr>) recs'"
    by (simp add: map_idI)
  also have "\<dots> = map (\<lambda>d. d\<lparr>swapFee := Some 25\<rparr>) (map (\<lambda>d. d\<lparr>swapFee := None\<rparr>) recs')"
    by simp
  also have "\<dots> = map (\<lambda>d. d\<lparr>swapFee := Some 25\<rparr>) recs"
    by (simp add: same)
  finally show "getBulkPairData ts cl bc pairList price mc' ov
             = Inr (Some (map (\<lambda>d. d\<lparr>swapFee := Some 25\<rparr>) recs))"
    using recs' by simp
qed

theorem swap_fee_default_witness:
  "\<exists>recs. getBulkPairData (86400, 172800, 604800)
       \<lparr>PAIRS_BULK = (\<lambda>ids. Inr (Some
            [\<lparr>pair_id = ''0xa'', volumeUSD = 100, untrackedVolumeUSD = 0, reserveUSD = 10,
              trackedReserveNativeCurrency = 1, createdAtBlockNumber = 5\<rparr>,
             \<lparr>pair_id = ''0xb'', volumeUSD = 50, untrackedVolumeUSD = 0, reserveUSD = 20,
              trackedReserveNativeCurrency = 2, createdAtBlockNumber = 6\<rparr>])),
        PAIRS_HISTORICAL_BULK = (\<lambda>b ids. Inr (Some [])),
        PAIR_DATA = (\<lambda>pairId b. Inr [])\<rparr>
       (\<lambda>timestamps. Inl QueryError) [''0xa'', ''0xb''] 2
       \<lparr>aggregate = (\<lambda>ids. Inr [''fee-a'', ''fee-b'']),
        decodeFunctionResult = (\<lambda>blob. if blob = ''fee-a'' then Inr 30 else Inl TypeError)\<rparr>
       (Some [30, 20, 10]) = Inr (Some recs)
     \<and> map pair_id recs = [''0xa'', ''0xb'']
     \<and> map swapFee recs = [Some 30, Some 25]"
proof -
  let ?run = "getBulkPairData (86400, 172800, 604800)
       \<lparr>PAIRS_BULK = (\<lambda>ids. Inr (Some
            [\<lparr>pair_id = ''0xa'', volumeUSD = 100, untrackedVolumeUSD = 0, reserveUSD = 10,
              trackedReserveNativeCurrency = 1, createdAtBlockNumber = 5\<rparr>,
             \<lparr>pair_id = ''0xb'', volumeUSD = 50, untrackedVolumeUSD = 0, reserveUSD = 20,
              trackedReserveNativeCurrency = 2, createdAtBlockNumber = 6\<rparr>])),
        PAIRS_HISTORICAL_BULK = (\<lambda>b ids. Inr (Some [])),
        PAIR_DATA = (\<lambda>pairId b. Inr [])\<rparr>
       (\<lambda>timestamps. Inl QueryError) [''0xa'', ''0xb''] 2
       \<lparr>aggregate = (\<lambda>ids. Inr [''fee-a'', ''fee-b'']),
        decodeFunctionResult = (\<lambda>blob. if blob = ''fee-a'' then Inr 30 else Inl TypeError)\<rparr>
       (Some [30, 20, 10])"
  have run: "\<exists>recs. ?run = Inr (Some recs) \<and> map pair_id recs = [''0xa'', ''0xb'']
               \<and> map swapFee recs = [Some 30, Some 25]"
    by (simp add: getBulkPairData_def changeBlocks_def bulkPairsAt_def bulkPair_def history_def byId_def
          getPairsSwapFee_def parseData_def get2DayPercentChange_def getPercentChange_def Let_def)
  then obtain recs where h: "?run = Inr (Some recs)"
    and v: "map pair_id recs = [''0xa'', ''0xb'']" "map swapFee recs = [Some 30, Some 25]"
    by auto
  from swap_fee_default [OF h] h v show ?thesis
    by auto
qed

section \<open>Properties of the daily chart data\<close>

lemma oneDay_pos: "0 < oneDay"
  by (simp add: oneDay_def)

lemma dayIndex_next: "dayIndex (d + oneDay) = dayIndex d + 1"
  by (simp add: dayIndex_def oneDay_def)

lemma dayIndex_steps: "dayIndex (d + k * oneDay) = dayIndex d + k"
proof (induction k)
  case 0
  then show ?case by simp
next
  case (Suc k)
  have "d + Suc k * oneDay = (d + k * oneDay) + oneDay" by simp
  then show ?case using Suc by (simp only: dayIndex_next)
qed

lemma dayIndex_mono: "d \<le> d' \<Longrightarrow> dayIndex d \<le> dayIndex d'"
  by (simp add: dayIndex_def div_le_mono)

lemma dayIndex_lower: "dayIndex d * oneDay \<le> d + oneDay div 2"
  by (simp add: dayIndex_def)

lemma dayIndex_upper: "d + oneDay div 2 < (dayIndex d + 1) * oneDay"
proof -
  have "(d + oneDay div 2) mod oneDay < oneDay" using oneDay_pos by simp
  moreover have "d + oneDay div 2
                 = dayIndex d * oneDay + (d + oneDay div 2) mod oneDay"
    by (simp add: dayIndex_def)
  ultimately show ?thesis by simp
qed


lemma fillEmptyDays_correct:
  assumes "sorted_wrt (<) (map (\<lambda>q. dayIndex (date q)) A)"
      and "S = map (\<lambda>q. dayIndex (date q)) A"
      and "1 \<le> index" "index \<le> length A"
      and "\<forall>i<index. dayIndex (date (A ! i)) \<le> dayIndex t"
      and "\<forall>i. index \<le> i \<and> i < length A \<longrightarrow> dayIndex t < dayIndex (date (A ! i))"
      and "latest = dayReserveUSD (A ! (index - 1))"
  shows "\<exists>new. fillEmptyDays e S A t latest index data = Inr (data @ new)
           \<and> (\<forall>p \<in> set new. synthesized A p \<and> date p < e
                  \<and> (\<exists>k\<ge>1. date p = t + k * oneDay))
           \<and> (\<forall>k\<ge>1. t + k * oneDay < e \<longrightarrow>
                  dayIndex t + k \<in> (\<lambda>q. dayIndex (date q)) ` (set A \<union> set new))
           \<and> sorted_wrt (<) (map date new)"
  using assms
proof (induction e S A t latest index data rule: fillEmptyDays.induct)
  case (1 e S A t latest index data)
  note sorted = "1.prems"(1) and S = "1.prems"(2)
    and idx = "1.prems"(3,4) and below = "1.prems"(5) and above = "1.prems"(6)
    and latest = "1.prems"(7)
  let ?idx = "\<lambda>q. dayIndex (date q)"
  have nth_less: "?idx (A ! i) < ?idx (A ! j)" if "i < j" "j < length A" for i j
    using sorted that sorted_wrt_nth_less [of "(<)" "map ?idx A" i j] by simp
  show ?case
  proof (cases "int t < int e - int oneDay")
    case False
    have "fillEmptyDays e S A t latest index data = Inr data"
      using False by (subst fillEmptyDays.simps) simp
    moreover have "\<not> t + k * oneDay < e" if "1 \<le> k" for k
    proof -
      have "oneDay \<le> k * oneDay" using that by simp
      with False show ?thesis by linarith
    qed
    ultimately show ?thesis
      by (intro exI [of _ "[]"]) auto
  next
    case True
    define x where "x = t + oneDay"
    have x_e: "x < e" using True by (simp add: x_def)
    have t_x: "t < x" using oneDay_pos by (simp add: x_def)
    have ix: "dayIndex x = dayIndex t + 1" by (simp add: x_def dayIndex_next)
    have mem: "dayIndex x \<in> set S \<longleftrightarrow> dayIndex x \<in> ?idx ` set A"
      by (simp add: S)
    have steps: "t + k * oneDay = x + (k - 1) * oneDay" if "1 \<le> k" for k
    proof -
      from that obtain m where "k = Suc m" by (cases k) auto
      then show ?thesis by (simp add: x_def)
    qed
    show ?thesis
    proof (cases "dayIndex x \<in> ?idx ` set A")
      case False
      let ?s = "\<lparr>date = x, dayString = Some x, dailyVolumeUSD = 0,
                 dayReserveUSD = latest, utilization = Some 0\<rparr>"
      have step: "fillEmptyDays e S A t latest index data
                  = fillEmptyDays e S A x latest index (data @ [?s])"
        using True False mem by (subst fillEmptyDays.simps) (simp add: x_def Let_def)
      have below': "\<forall>i<index. ?idx (A ! i) \<le> dayIndex x"
        using below ix by (simp add: le_SucI)
      have above': "\<forall>i. index \<le> i \<and> i < length A \<longrightarrow> dayIndex x < ?idx (A ! i)"
      proof (intro allI impI)
        fix i assume i: "index \<le> i \<and> i < length A"
        then have "dayIndex t < ?idx (A ! i)" using above by blast
        moreover have "?idx (A ! i) \<noteq> dayIndex x" using False i by (metis imageI nth_mem)
        ultimately show "dayIndex x < ?idx (A ! i)" using ix by simp
      qed
      have notin: "dayIndex x \<notin> set S" using mem False by simp
      from "1.IH"(1) [OF True x_def refl notin sorted S idx below' above' latest]
      obtain new where run: "fillEmptyDays e S A x latest index (data @ [?s]) = Inr ((data @ [?s]) @ new)"
        and pts: "\<forall>p \<in> set new. synthesized A p \<and> date p < e \<and> (\<exists>k\<ge>1. date p = x + k * oneDay)"
        and cover: "\<forall>k\<ge>1. x + k * oneDay < e \<longrightarrow> dayIndex x + k \<in> ?idx ` (set A \<union> set new)"
        and asc: "sorted_wrt (<) (map date new)"
        by blast
      have synth: "synthesized A ?s"
      proof -
        let ?q = "A ! (index - 1)"
        have q: "?q \<in> set A" using idx by simp
        have q_t: "?idx ?q \<le> dayIndex t" using below idx by simp
        have "?idx q' \<le> ?idx ?q" if "q' \<in> set A" "?idx q' < dayIndex x" for q'
        proof -
          from that(1) obtain j where j: "j < length A" "A ! j = q'"
            by (auto simp: in_set_conv_nth)
          have "j < index"
          proof (rule ccontr)
            assume "\<not> j < index"
            then have "index \<le> j \<and> j < length A" using j by simp
            then have "dayIndex x < ?idx (A ! j)" using above' by blast
            with that(2) j show False by simp
          qed
          then have "j = index - 1 \<or> j < index - 1" by linarith
          moreover have "index - 1 < length A" using idx by simp
          ultimately show ?thesis
            using j nth_less [of j "index - 1"] by auto
        qed
        with q q_t ix False latest show ?thesis
          by (auto simp: synthesized_def intro!: bexI [of _ ?q])
      qed
      have r: "fillEmptyDays e S A t latest index data = Inr (data @ ?s # new)"
        using step run by simp
      have p: "\<forall>p \<in> set (?s # new). synthesized A p \<and> date p < e \<and> (\<exists>k\<ge>1. date p = t + k * oneDay)"
      proof
        fix p assume "p \<in> set (?s # new)"
        then consider "p = ?s" | "p \<in> set new" by auto
        then show "synthesized A p \<and> date p < e \<and> (\<exists>k\<ge>1. date p = t + k * oneDay)"
        proof cases
          case 1
          have "date p = t + 1 * oneDay" using 1 by (simp add: x_def)
          moreover have "date p < e" using 1 x_e by simp
          ultimately show ?thesis using 1 synth by blast
        next
          case 2
          with pts obtain k where k: "1 \<le> k" "date p = x + k * oneDay"
            and sp: "synthesized A p" "date p < e" by blast
          have "date p = t + (k + 1) * oneDay" using k by (simp add: x_def)
          with sp show ?thesis by (metis le_add2)
        qed
      qed
      have c: "\<forall>k\<ge>1. t + k * oneDay < e \<longrightarrow> dayIndex t + k \<in> ?idx ` (set A \<union> set (?s # new))"
      proof (intro allI impI)
        fix k :: nat assume k: "1 \<le> k" "t + k * oneDay < e"
        show "dayIndex t + k \<in> ?idx ` (set A \<union> set (?s # new))"
        proof (cases "k = 1")
          case True
          then have "dayIndex t + k = ?idx ?s" by (simp add: ix)
          then show ?thesis by (metis UnCI imageI list.set_intros(1))
        next
          case False
          with k have k': "1 \<le> k - 1" by simp
          from k steps [of k] have "x + (k - 1) * oneDay < e" by simp
          with cover k' have "dayIndex x + (k - 1) \<in> ?idx ` (set A \<union> set new)" by blast
          moreover have "dayIndex x + (k - 1) = dayIndex t + k" using k by (simp add: ix)
          ultimately show ?thesis by auto
        qed
      qed
      have a: "sorted_wrt (<) (map date (?s # new))"
      proof -
        have "x < date p" if "p \<in> set new" for p
        proof -
          from pts that obtain k where "1 \<le> k" "date p = x + k * oneDay" by blast
          then show ?thesis using oneDay_pos by (cases k) auto
        qed
        with asc show ?thesis by simp
      qed
      show ?thesis
        by (rule exI [of _ "?s # new"]) (intro conjI r p c a)
    next
      case in_A: True
      then obtain j where j: "j < length A" "?idx (A ! j) = dayIndex x"
        by (auto simp: in_set_conv_nth)
      have "index \<le> j"
      proof (rule ccontr)
        assume "\<not> index \<le> j"
        then have "?idx (A ! j) \<le> dayIndex t" using below by simp
        with j ix show False by simp
      qed
      moreover have "\<not> index < j"
      proof
        assume lt: "index < j"
        then have "?idx (A ! index) < dayIndex x" using nth_less [of index j] j by simp
        moreover have "dayIndex t < ?idx (A ! index)" using above lt j by simp
        ultimately show False using ix by simp
      qed
      ultimately have "j = index" by simp
      with j have index: "index < length A" and at: "?idx (A ! index) = dayIndex x" by simp_all
      have step: "fillEmptyDays e S A t latest index data
                  = fillEmptyDays e S A x (dayReserveUSD (A ! index)) (index + 1) data"
        using True in_A mem index by (subst fillEmptyDays.simps) (simp add: x_def Let_def)
      have isin: "\<not> dayIndex x \<notin> set S" using mem in_A by simp
      have idx': "1 \<le> index + 1" "index + 1 \<le> length A" using index by simp_all
      have below': "\<forall>i<index + 1. ?idx (A ! i) \<le> dayIndex x"
      proof (intro allI impI)
        fix i assume "i < index + 1"
        then have "i < index \<or> i = index" by linarith
        then show "?idx (A ! i) \<le> dayIndex x"
          using below ix at by (auto simp: le_SucI)
      qed
      have above': "\<forall>i. index + 1 \<le> i \<and> i < length A \<longrightarrow> dayIndex x < ?idx (A ! i)"
        using nth_less [of index] at by auto
      have latest': "dayReserveUSD (A ! index) = dayReserveUSD (A ! (index + 1 - 1))" by simp
      from "1.IH"(2) [OF True x_def refl isin index sorted S idx' below' above' latest']
      obtain new where run: "fillEmptyDays e S A x (dayReserveUSD (A ! index)) (index + 1) data
                             = Inr (data @ new)"
        and pts: "\<forall>p \<in> set new. synthesized A p \<and> date p < e \<and> (\<exists>k\<ge>1. date p = x + k * oneDay)"
        and cover: "\<forall>k\<ge>1. x + k * oneDay < e \<longrightarrow> dayIndex x + k \<in> ?idx ` (set A \<union> set new)"
        and asc: "sorted_wrt (<) (map date new)"
        by blast
      have r: "fillEmptyDays e S A t latest index data = Inr (data @ new)"
        using step run by simp
      have p: "\<forall>p \<in> set new. synthesized A p \<and> date p < e \<and> (\<exists>k\<ge>1. date p = t + k * oneDay)"
      proof
        fix p assume "p \<in> set new"
        with pts obtain k where k: "1 \<le> k" "date p = x + k * oneDay"
          and sp: "synthesized A p" "date p < e" by blast
        have "date p = t + (k + 1) * oneDay" using k by (simp add: x_def)
        with sp show "synthesized A p \<and> date p < e \<and> (\<exists>k\<ge>1. date p = t + k * oneDay)"
          by (metis le_add2)
      qed
      have c: "\<forall>k\<ge>1. t + k * oneDay < e \<longrightarrow> dayIndex t + k \<in> ?idx ` (set A \<union> set new)"
      proof (intro allI impI)
        fix k :: nat assume k: "1 \<le> k" "t + k * oneDay < e"
        show "dayIndex t + k \<in> ?idx ` (set A \<union> set new)"
        proof (cases "k = 1")
          case True
          then have "dayIndex t + k = dayIndex x" by (simp add: ix)
          with in_A show ?thesis by auto
        next
          case False
          with k have k': "1 \<le> k - 1" by simp
          from k steps [of k] have "x + (k - 1) * oneDay < e" by simp
          with cover k' have "dayIndex x + (k - 1) \<in> ?idx ` (set A \<union> set new)" by blast
          moreover have "dayIndex x + (k - 1) = dayIndex t + k" using k by (simp add: ix)
          ultimately show ?thesis by auto
        qed
      qed
      show ?thesis
        by (rule exI [of _ new]) (intro conjI r p c asc)
    qed
  qed
qed


lemma interval_unique:
  fixes xs :: "nat list"
  assumes "sorted xs" "distinct xs" "xs \<noteq> []"
    and lower: "\<forall>i \<in> set xs. i0 \<le> i"
    and closed: "\<forall>i \<in> set xs. \<forall>j. i0 \<le> j \<and> j \<le> i \<longrightarrow> j \<in> set xs"
  shows "xs = [i0..<i0 + length xs]"
proof -
  define m where "m = Max (set xs)"
  have m_in: "m \<in> set xs" unfolding m_def using assms(3) by (intro Max_in) simp_all
  have m_ge: "i \<le> m" if "i \<in> set xs" for i
    unfolding m_def using that by (intro Max_ge) simp_all
  have "set xs = {i0..<Suc m}"
  proof (intro set_eqI iffI)
    fix i assume "i \<in> set xs"
    with lower m_ge show "i \<in> {i0..<Suc m}" by (simp add: less_Suc_eq_le)
  next
    fix i assume "i \<in> {i0..<Suc m}"
    then have "i0 \<le> i \<and> i \<le> m" by simp
    with closed m_in show "i \<in> set xs" by blast
  qed
  then have sets: "set xs = set [i0..<Suc m]" by (simp only: set_upt)
  have eq: "xs = [i0..<Suc m]"
    using assms(1,2) sorted_upt distinct_upt sets by (rule sorted_distinct_set_unique)
  moreover have "i0 \<le> m" using lower m_in by blast
  ultimately have "i0 + length xs = Suc m" by simp
  with eq show ?thesis by simp
qed

lemma consecutiveDays_nth:
  "(\<And>i. Suc i < length ds \<Longrightarrow> dayIndex (ds ! Suc i) = dayIndex (ds ! i) + 1)
   \<Longrightarrow> consecutiveDays ds"
proof (induction ds rule: consecutiveDays.induct)
  case (1 a b ds)
  have "dayIndex b = dayIndex a + 1" using "1.prems" [of 0] by simp
  moreover have "consecutiveDays (b # ds)"
  proof (rule "1.IH")
    fix i assume "Suc i < length (b # ds)"
    then show "dayIndex ((b # ds) ! Suc i) = dayIndex ((b # ds) ! i) + 1"
      using "1.prems" [of "Suc i"] by simp
  qed
  ultimately show ?case by simp
qed simp_all

lemma synthesized_parseDayData:
  "synthesized (map parseDayData fetched) p = synthesized fetched p"
  by (simp add: synthesized_def parseDayData_def image_image)

lemma date_parseDayData [simp]: "date (parseDayData q) = date q"
  by (simp add: parseDayData_def)

lemma dayReserveUSD_parseDayData [simp]: "dayReserveUSD (parseDayData q) = dayReserveUSD q"
  by (simp add: parseDayData_def)

lemma getPairChartData_filled:
  assumes "fetchPages query 0 [] = Some (Inr fetched)" "fetched \<noteq> []" "date (hd fetched) \<noteq> 0"
    and "fillEmptyDays utcEndTime (map (\<lambda>q. dayIndex (date q)) fetched) (map parseDayData fetched)
           (date (hd fetched)) (dayReserveUSD (hd fetched)) 1 (map parseDayData fetched) = Inr filled"
  shows "getPairChartData query utcEndTime startTime = Some (sort_key date filled)"
proof -
  from assms(2) obtain first rest where "fetched = first # rest" by (cases fetched) auto
  with assms show ?thesis
    by (simp add: getPairChartData_def Let_def)
qed


text \<open>
  C1, as stated, fails. Two points fetched out of order (day 13, then day 10; now is the
  start of day 16): the walk starts at the first fetched point, so the series is day
  10, 13, 14, 15 and the days 11 and 12 are missing. Two points fetched for the same day
  (day 10 twice; now is the start of day 12): both stay in the series. And the last day
  need not be the day of now minus one day: with one point on day 10 and now one hour
  into day 16, now minus one day is on day 15, and the series runs through day 16.
\<close>

theorem chart_gap_fill_counterexample:
  "map_option (map date)
     (getPairChartData
        (\<lambda>skip. Inr [\<lparr>date = 1123200, dayString = None, dailyVolumeUSD = 5,
                        dayReserveUSD = 100, utilization = None\<rparr>,
                       \<lparr>date = 864000, dayString = None, dailyVolumeUSD = 6,
                        dayReserveUSD = 200, utilization = None\<rparr>])
        1382400 0)
   = Some [864000, 1123200, 1209600, 1296000]
   \<and> \<not> consecutiveDays [864000, 1123200, 1209600, 1296000]
   \<and> map_option (map date)
     (getPairChartData
        (\<lambda>skip. Inr [\<lparr>date = 864000, dayString = None, dailyVolumeUSD = 5,
                        dayReserveUSD = 100, utilization = None\<rparr>,
                       \<lparr>date = 864000, dayString = None, dailyVolumeUSD = 6,
                        dayReserveUSD = 200, utilization = None\<rparr>])
        1036800 0)
   = Some [864000, 864000, 950400]
   \<and> \<not> consecutiveDays [864000, 864000, 950400]
   \<and> map_option (map (\<lambda>p. dayIndex (date p)))
     (getPairChartData
        (\<lambda>skip. Inr [\<lparr>date = 864000, dayString = None, dailyVolumeUSD = 5,
                        dayReserveUSD = 100, utilization = None\<rparr>])
        1386000 0)
   = Some [10, 11, 12, 13, 14, 15, 16]
   \<and> dayIndex (1386000 - oneDay) = 15"
  by (simp add: getPairChartData_def fetchPages.simps fillEmptyDays.simps parseDayData_def
        dayIndex_def oneDay_def Let_def)

text \<open>
  C1, amended. Take daily points fetched in ascending order of day, no two on the same
  day, the first date not 0 and the last one before now. Then \<^verbatim>\<open>getPairChartData\<close>
  returns a series sorted ascending by date, every date before now, with exactly one
  point for the first point's day and for each day after it, without a gap, through the
  last day. The last day is the day of now minus one day or the day after it; it is the
  later of the last fetched point's day and the day of the last step of the walk (first
  date plus a whole number of days) that is before now. Every fetched point is in the
  series, and every other point is synthesized: no volume, no utilization, and the
  reserve of the latest fetched point of an earlier day.
\<close>

theorem chart_gap_fill:
  assumes "fetchPages query 0 [] = Some (Inr fetched)"
    and "fetched \<noteq> []"
    and "sorted_wrt (<) (map (\<lambda>p. dayIndex (date p)) fetched)"
    and "date (hd fetched) \<noteq> 0"
    and "date (last fetched) < utcEndTime"
  shows "\<exists>series. getPairChartData query utcEndTime startTime = Some series
           \<and> series \<noteq> []
           \<and> map (\<lambda>p. dayIndex (date p)) series
               = [dayIndex (date (hd fetched))..<dayIndex (date (hd fetched)) + length series]
           \<and> sorted_wrt (<) (map date series)
           \<and> consecutiveDays (map date series)
           \<and> dayIndex (utcEndTime - oneDay) \<le> dayIndex (date (last series))
           \<and> dayIndex (date (last series)) \<le> dayIndex (utcEndTime - oneDay) + 1
           \<and> dayIndex (date (last series))
               = max (dayIndex (date (last fetched)))
                   (dayIndex (date (hd fetched))
                      + (utcEndTime - 1 - date (hd fetched)) div oneDay)
           \<and> (\<forall>p \<in> set series. date p < utcEndTime)
           \<and> (\<forall>q \<in> set fetched. parseDayData q \<in> set series)
           \<and> (\<forall>p \<in> set series. p \<in> parseDayData ` set fetched \<or> synthesized fetched p)"
proof -
  let ?idx = "\<lambda>q. dayIndex (date q)"
  define A where "A = map parseDayData fetched"
  define d0 where "d0 = date (hd fetched)"
  define i0 where "i0 = dayIndex d0"
  have len: "0 < length A" using assms(2) by (simp add: A_def)
  have idxA: "map ?idx A = map ?idx fetched" by (simp add: A_def)
  have sorted: "sorted_wrt (<) (map ?idx A)" using assms(3) by (simp only: idxA)
  have hd: "date (A ! 0) = d0" "dayReserveUSD (A ! 0) = dayReserveUSD (hd fetched)"
    using assms(2) by (simp_all add: A_def d0_def hd_conv_nth)
  have nth_less: "?idx (A ! i) < ?idx (A ! j)" if "i < j" "j < length A" for i j
    using sorted that sorted_wrt_nth_less [of "(<)" "map ?idx A" i j] by simp
  have date_less: "date q < date q'" if "?idx q < ?idx q'" for q q' :: dayData
    using that dayIndex_mono [of "date q'" "date q"] by (cases "date q < date q'") auto
  have below: "\<forall>i<1. ?idx (A ! i) \<le> dayIndex d0" using hd by simp
  have above: "\<forall>i. 1 \<le> i \<and> i < length A \<longrightarrow> dayIndex d0 < ?idx (A ! i)"
    using nth_less [of 0] hd by auto
  have latest: "dayReserveUSD (hd fetched) = dayReserveUSD (A ! (1 - 1))" using hd by simp
  have S: "map ?idx fetched = map ?idx A" by (simp only: idxA)
  from fillEmptyDays_correct [OF sorted S le_refl _ below above latest, of utcEndTime A] len
  obtain new where run: "fillEmptyDays utcEndTime (map ?idx fetched) A d0
                           (dayReserveUSD (hd fetched)) 1 A = Inr (A @ new)"
    and pts: "\<forall>p \<in> set new. synthesized A p \<and> date p < utcEndTime
                 \<and> (\<exists>k\<ge>1. date p = d0 + k * oneDay)"
    and cover: "\<forall>k\<ge>1. d0 + k * oneDay < utcEndTime \<longrightarrow> i0 + k \<in> ?idx ` (set A \<union> set new)"
    and asc: "sorted_wrt (<) (map date new)"
    unfolding i0_def by auto
  define series where "series = sort_key date (A @ new)"
  have result: "getPairChartData query utcEndTime startTime = Some series"
    unfolding series_def using assms(1,2,4) run [unfolded A_def d0_def]
    by (intro getPairChartData_filled) (simp_all add: A_def)
  have set_series: "set series = set A \<union> set new" by (simp add: series_def)
  have nonempty: "series \<noteq> []" using len set_series by (cases series) auto
  have first_in: "i0 \<in> ?idx ` set series"
  proof -
    have "A ! 0 \<in> set series" using len set_series by simp
    moreover have "?idx (A ! 0) = i0" using hd by (simp add: i0_def)
    ultimately show ?thesis by (metis imageI)
  qed
  have A_lower: "i0 \<le> ?idx q" if "q \<in> set A" for q
  proof -
    from that obtain j where j: "j < length A" "A ! j = q" by (auto simp: in_set_conv_nth)
    then show ?thesis using nth_less [of 0 j] hd by (cases "j = 0") (auto simp: i0_def)
  qed
  have A_past: "date q < utcEndTime" if "q \<in> set A" for q
  proof -
    from that obtain j where j: "j < length A" "A ! j = q" by (auto simp: in_set_conv_nth)
    have last: "date (A ! (length A - 1)) = date (last fetched)"
      using assms(2) by (simp add: A_def last_conv_nth)
    show ?thesis
    proof (cases "j = length A - 1")
      case True
      with j last assms(5) show ?thesis by simp
    next
      case False
      with j have "j < length A - 1" by simp
      then have "?idx (A ! j) < ?idx (A ! (length A - 1))" using nth_less len by simp
      then have "date (A ! j) < date (A ! (length A - 1))" by (rule date_less)
      with j last assms(5) show ?thesis by simp
    qed
  qed
  have new_index: "\<exists>k\<ge>1. ?idx p = i0 + k \<and> d0 + k * oneDay < utcEndTime" if "p \<in> set new" for p
  proof -
    from pts that obtain k where "1 \<le> k" "date p = d0 + k * oneDay" "date p < utcEndTime"
      by blast
    then show ?thesis by (auto simp: dayIndex_steps i0_def)
  qed
  have lower: "\<forall>i \<in> set (map ?idx series). i0 \<le> i"
  proof
    fix i assume "i \<in> set (map ?idx series)"
    then obtain p where "p \<in> set A \<union> set new" "i = ?idx p" using set_series by auto
    then show "i0 \<le> i" using A_lower new_index by fastforce
  qed
  have closed: "\<forall>i \<in> set (map ?idx series). \<forall>j. i0 \<le> j \<and> j \<le> i \<longrightarrow> j \<in> set (map ?idx series)"
  proof (intro ballI allI impI)
    fix i j assume i: "i \<in> set (map ?idx series)" and j: "i0 \<le> j \<and> j \<le> i"
    from i obtain p where p: "p \<in> set A \<union> set new" "i = ?idx p" using set_series by auto
    show "j \<in> set (map ?idx series)"
    proof (cases "j = i0 \<or> j = i")
      case True
      then show ?thesis using first_in i by auto
    next
      case False
      with j have jk: "i0 < j" "j < i" by simp_all
      define k where "k = j - i0"
      have k: "1 \<le> k" "j = i0 + k" using jk by (simp_all add: k_def)
      have "d0 + k * oneDay < utcEndTime"
      proof (cases "p \<in> set new")
        case True
        then obtain k' where k': "?idx p = i0 + k'" "d0 + k' * oneDay < utcEndTime"
          using new_index by blast
        with p jk k have "k \<le> k'" by simp
        then have "k * oneDay \<le> k' * oneDay" by (rule mult_le_mono1)
        with k'(2) show ?thesis by linarith
      next
        case False
        with p have pA: "p \<in> set A" by simp
        have "d0 + oneDay div 2 < (i0 + 1) * oneDay"
          unfolding i0_def by (rule dayIndex_upper)
        then have "d0 + k * oneDay + oneDay div 2 < (i0 + 1 + k) * oneDay"
          by (simp add: algebra_simps)
        also have "\<dots> \<le> ?idx p * oneDay"
        proof -
          have "i0 + 1 + k \<le> ?idx p" using jk k p by simp
          then show ?thesis by (rule mult_le_mono1)
        qed
        also have "\<dots> \<le> date p + oneDay div 2" by (rule dayIndex_lower)
        finally have "d0 + k * oneDay < date p" by simp
        with A_past [OF pA] show ?thesis by simp
      qed
      with cover k have "j \<in> ?idx ` (set A \<union> set new)" by blast
      then show ?thesis using set_series by simp
    qed
  qed
  have fresh: "?idx p \<notin> ?idx ` set A" if "p \<in> set new" for p
    using pts that by (simp add: synthesized_def)
  have disjoint: "?idx ` set A \<inter> ?idx ` set new = {}"
  proof (rule ccontr)
    assume "?idx ` set A \<inter> ?idx ` set new \<noteq> {}"
    then obtain i where i: "i \<in> ?idx ` set A" "i \<in> ?idx ` set new" by blast
    from i(2) obtain p where "p \<in> set new" "i = ?idx p" by blast
    with fresh i(1) show False by simp
  qed
  have new_sorted: "sorted_wrt (<) (map ?idx new)"
  proof -
    have "?idx p < ?idx p'" if "p \<in> set new" "p' \<in> set new" "date p < date p'" for p p'
    proof -
      from pts that(1) obtain k where k: "date p = d0 + k * oneDay" by blast
      from pts that(2) obtain k' where k': "date p' = d0 + k' * oneDay" by blast
      from that(3) k k' have "k < k'" using oneDay_pos by simp
      with k k' show ?thesis by (simp add: dayIndex_steps)
    qed
    moreover have "sorted_wrt (\<lambda>p p'. date p < date p') new"
      using asc by (simp add: sorted_wrt_map)
    ultimately have "sorted_wrt (\<lambda>p p'. ?idx p < ?idx p') new"
      by (rule_tac sorted_wrt_mono_rel) auto
    then show ?thesis by (simp add: sorted_wrt_map)
  qed
  have "distinct (map ?idx (A @ new))"
    using sorted new_sorted disjoint by (simp add: strict_sorted_iff del: distinct_map)
  moreover have "distinct (map ?idx series) \<longleftrightarrow> distinct (map ?idx (A @ new))"
    by (simp only: series_def distinct_map distinct_sort set_sort)
  ultimately have distinct: "distinct (map ?idx series)"
    by (simp only:)
  have by_date: "sorted (map date series)" by (simp add: series_def)
  have sorted_series: "sorted (map ?idx series)"
  proof -
    have "sorted_wrt (\<lambda>p p'. date p \<le> date p') series"
      using by_date by (simp add: sorted_map)
    then have "sorted_wrt (\<lambda>p p'. ?idx p \<le> ?idx p') series"
      by (rule sorted_wrt_mono_rel [rotated]) (simp add: dayIndex_mono)
    then show ?thesis by (simp add: sorted_map)
  qed
  have ne: "map ?idx series \<noteq> []" using nonempty by simp
  from interval_unique [OF sorted_series distinct ne lower closed]
  have interval: "map ?idx series = [i0..<i0 + length series]" by simp
  have "distinct (map date series)"
  proof -
    have "map ?idx series = map dayIndex (map date series)" by simp
    with distinct show ?thesis by (simp only: distinct_map) 
  qed
  with by_date have strict: "sorted_wrt (<) (map date series)"
    by (simp add: strict_sorted_iff)
  have consecutive: "consecutiveDays (map date series)"
  proof (rule consecutiveDays_nth)
    fix i assume "Suc i < length (map date series)"
    then have i: "Suc i < length series" by simp
    have "dayIndex (map date series ! j) = i0 + j" if "j < length series" for j
    proof -
      have "dayIndex (map date series ! j) = map ?idx series ! j" using that by simp
      also have "\<dots> = i0 + j" using that by (simp only: interval) simp
      finally show ?thesis .
    qed
    from this [of "Suc i"] this [of i] i
    show "dayIndex (map date series ! Suc i) = dayIndex (map date series ! i) + 1"
      by simp
  qed
  have last_index: "?idx (last series) = i0 + length series - 1"
  proof -
    have "?idx (last series) = last (map ?idx series)" using nonempty by (simp add: last_map)
    also have "\<dots> = last [i0..<i0 + length series]" by (simp only: interval)
    also have "\<dots> = i0 + length series - 1" using nonempty by simp
    finally show ?thesis .
  qed
  have reach: "dayIndex (utcEndTime - oneDay) \<le> ?idx (last series)"
  proof (rule ccontr)
    assume "\<not> dayIndex (utcEndTime - oneDay) \<le> ?idx (last series)"
    then have less: "i0 + length series - 1 < dayIndex (utcEndTime - oneDay)"
      by (simp add: last_index)
    define r where "r = dayIndex (utcEndTime - oneDay)"
    define k where "k = r - i0"
    have "0 < length series" using nonempty by simp
    with less have "i0 < r" unfolding r_def by linarith
    then have k: "1 \<le> k" "r = i0 + k" by (simp_all add: k_def)
    have "oneDay \<le> r * oneDay" using k by simp
    also have "r * oneDay \<le> (utcEndTime - oneDay) + oneDay div 2"
      unfolding r_def by (rule dayIndex_lower)
    finally have big: "oneDay < utcEndTime" by (simp add: oneDay_def)
    have "dayIndex (d0 + k * oneDay) = r" using k by (simp add: dayIndex_steps i0_def)
    then have "d0 + k * oneDay + oneDay div 2 < (r + 1) * oneDay"
      using dayIndex_upper [of "d0 + k * oneDay"] by simp
    moreover have "r * oneDay \<le> (utcEndTime - oneDay) + oneDay div 2"
      unfolding r_def by (rule dayIndex_lower)
    ultimately have "d0 + k * oneDay < utcEndTime" using big by simp
    with cover k have "r \<in> ?idx ` (set A \<union> set new)" by blast
    then have "r \<in> set (map ?idx series)" using set_series by simp
    then have "r < i0 + length series" by (simp only: interval) simp
    with less show False by (simp add: r_def)
  qed
  have kept: "\<forall>q \<in> set fetched. parseDayData q \<in> set series"
    using set_series by (simp add: A_def)
  have either: "\<forall>p \<in> set series. p \<in> parseDayData ` set fetched \<or> synthesized fetched p"
    using set_series pts by (auto simp: A_def synthesized_parseDayData)
  have before_now: "\<forall>p \<in> set series. date p < utcEndTime"
    using set_series A_past pts by auto
  have upper: "?idx (last series) \<le> dayIndex (utcEndTime - oneDay) + 1"
  proof -
    have "last series \<in> set series" using nonempty by simp
    then have "date (last series) < utcEndTime" using before_now by blast
    then have "date (last series) \<le> (utcEndTime - oneDay) + oneDay" by simp
    then have "?idx (last series) \<le> dayIndex ((utcEndTime - oneDay) + oneDay)"
      by (rule dayIndex_mono)
    then show ?thesis by (simp only: dayIndex_next)
  qed
  define K where "K = (utcEndTime - 1 - d0) div oneDay"
  have d0_past: "d0 < utcEndTime" using A_past [of "A ! 0"] len hd by simp
  have K_iff: "d0 + k * oneDay < utcEndTime \<longleftrightarrow> k \<le> K" for k
  proof -
    have "k \<le> K \<longleftrightarrow> k * oneDay \<le> utcEndTime - 1 - d0"
      unfolding K_def using oneDay_pos by (simp add: less_eq_div_iff_mult_less_eq)
    also have "\<dots> \<longleftrightarrow> d0 + k * oneDay < utcEndTime" using d0_past by linarith
    finally show ?thesis by simp
  qed
  have A_top: "?idx q \<le> ?idx (last fetched)" if "q \<in> set A" for q
  proof -
    from that obtain j where j: "j < length A" "A ! j = q" by (auto simp: in_set_conv_nth)
    have last: "date (A ! (length A - 1)) = date (last fetched)"
      using assms(2) by (simp add: A_def last_conv_nth)
    show ?thesis
    proof (cases "j = length A - 1")
      case True
      with j last show ?thesis by simp
    next
      case False
      with j have "j < length A - 1" by simp
      then have "?idx (A ! j) < ?idx (A ! (length A - 1))" using nth_less len by simp
      with j last show ?thesis by simp
    qed
  qed
  have in_range: "i \<le> i0 + length series - 1" if "i \<in> set (map ?idx series)" for i
  proof -
    from that have "i < i0 + length series" by (simp only: interval) simp
    then show ?thesis by simp
  qed
  have last_fetched: "?idx (last fetched) \<in> set (map ?idx series)"
  proof -
    have "parseDayData (last fetched) \<in> set series"
      using set_series assms(2) by (simp add: A_def)
    then have "?idx (parseDayData (last fetched)) \<in> ?idx ` set series" by (rule imageI)
    then show ?thesis by simp
  qed
  have walk_end: "i0 + K \<in> set (map ?idx series)"
  proof (cases "K = 0")
    case True
    then show ?thesis using first_in by simp
  next
    case False
    then have "1 \<le> K" by simp
    moreover have "d0 + K * oneDay < utcEndTime" using K_iff [of K] by simp
    ultimately have "i0 + K \<in> ?idx ` (set A \<union> set new)" using cover by blast
    then show ?thesis using set_series by simp
  qed
  have top: "i \<le> max (?idx (last fetched)) (i0 + K)" if "i \<in> set (map ?idx series)" for i
  proof -
    from that obtain p where p: "p \<in> set A \<union> set new" "i = ?idx p" using set_series by auto
    show ?thesis
    proof (cases "p \<in> set new")
      case True
      then obtain k where k: "?idx p = i0 + k" "d0 + k * oneDay < utcEndTime"
        using new_index by blast
      from k(2) have "k \<le> K" by (simp only: K_iff)
      with k(1) p(2) show ?thesis by simp
    next
      case False
      with p have "p \<in> set A" by simp
      then have "?idx p \<le> ?idx (last fetched)" by (rule A_top)
      with p(2) show ?thesis by simp
    qed
  qed
  have exact: "?idx (last series) = max (?idx (last fetched)) (i0 + K)"
  proof (rule antisym)
    have "last series \<in> set series" using nonempty by (rule last_in_set)
    then have "?idx (last series) \<in> ?idx ` set series" by (rule imageI)
    then have "?idx (last series) \<in> set (map ?idx series)" by simp
    then show "?idx (last series) \<le> max (?idx (last fetched)) (i0 + K)" by (rule top)
    show "max (?idx (last fetched)) (i0 + K) \<le> ?idx (last series)"
      using in_range [OF last_fetched] in_range [OF walk_end] by (simp add: last_index)
  qed
  from result nonempty interval strict consecutive reach upper exact before_now kept either
  show ?thesis
    unfolding K_def d0_def i0_def by blast
qed


theorem chart_gap_fill_witness:
  "\<exists>series. getPairChartData
       (\<lambda>skip. Inr [\<lparr>date = 864000, dayString = None, dailyVolumeUSD = 5,
                       dayReserveUSD = 100, utilization = None\<rparr>,
                      \<lparr>date = 1036800, dayString = None, dailyVolumeUSD = 6,
                       dayReserveUSD = 200, utilization = None\<rparr>,
                      \<lparr>date = 1296000, dayString = None, dailyVolumeUSD = 7,
                       dayReserveUSD = 300, utilization = None\<rparr>])
       1382400 0 = Some series
     \<and> map date series = [864000, 950400, 1036800, 1123200, 1209600, 1296000]
     \<and> map dailyVolumeUSD series = [5, 0, 6, 0, 0, 7]
     \<and> map dayReserveUSD series = [100, 100, 200, 200, 200, 300]
     \<and> consecutiveDays (map date series)
     \<and> (\<forall>p \<in> set series. date p < 1382400)"
proof -
  let ?fetched = "[\<lparr>date = 864000, dayString = None, dailyVolumeUSD = 5,
                       dayReserveUSD = 100, utilization = None\<rparr>,
                      \<lparr>date = 1036800, dayString = None, dailyVolumeUSD = 6,
                       dayReserveUSD = 200, utilization = None\<rparr>,
                      \<lparr>date = 1296000, dayString = None, dailyVolumeUSD = 7,
                       dayReserveUSD = 300, utilization = None\<rparr>]"
  have fetch: "fetchPages (\<lambda>skip. Inr ?fetched) 0 [] = Some (Inr ?fetched)"
    by (simp add: fetchPages.simps)
  have ne: "?fetched \<noteq> []" by simp
  have asc: "sorted_wrt (<) (map (\<lambda>p. dayIndex (date p)) ?fetched)"
    by (simp add: dayIndex_def oneDay_def)
  have first: "date (hd ?fetched) \<noteq> 0" by simp
  have past: "date (last ?fetched) < 1382400" by simp
  have run: "getPairChartData (\<lambda>skip. Inr ?fetched) 1382400 0 =
    Some [\<lparr>date = 864000, dayString = None, dailyVolumeUSD = 5,
              dayReserveUSD = 100, utilization = Some 5\<rparr>,
          \<lparr>date = 950400, dayString = Some 950400, dailyVolumeUSD = 0,
              dayReserveUSD = 100, utilization = Some 0\<rparr>,
          \<lparr>date = 1036800, dayString = None, dailyVolumeUSD = 6,
              dayReserveUSD = 200, utilization = Some 3\<rparr>,
          \<lparr>date = 1123200, dayString = Some 1123200, dailyVolumeUSD = 0,
              dayReserveUSD = 200, utilization = Some 0\<rparr>,
          \<lparr>date = 1209600, dayString = Some 1209600, dailyVolumeUSD = 0,
              dayReserveUSD = 200, utilization = Some 0\<rparr>,
          \<lparr>date = 1296000, dayString = None, dailyVolumeUSD = 7,
              dayReserveUSD = 300, utilization = Some (7 / 3)\<rparr>]"
    by (simp add: getPairChartData_def fetchPages.simps fillEmptyDays.simps parseDayData_def
          dayIndex_def oneDay_def Let_def)
  from chart_gap_fill [OF fetch ne asc first past, of 0] run show ?thesis
    by auto
qed

end
